theory Spec2Isabelle
  imports Complex_Main "HOL-Library.Sublist"
begin

section \<open>Data model\<close>

text \<open>
  The verifier script \<open>scripts/run_verifier.py\<close> computes with Python floats. A float
  that is a number is modelled by the real it denotes (rounding, overflow and signed
  zeros are not modelled); the IEEE sentinels the script produces and tests for are
  constructors of their own.
\<close>

datatype pyfloat = Fin real | PInf | NInf | NaN

text \<open>The exceptions the modelled functions can raise.\<close>

datatype error =
    ZeroDivisionError
  | ValueError
  | IndexError
  | KeyError string
  | TypeError
  | AttributeError
  | OSError
  | SystemExit string
  | RuntimeError string
  | JSONDecodeError

subsection \<open>Float arithmetic\<close>

text \<open>
  Negation, addition, subtraction, multiplication and IEEE division (the division of
  NumPy and pandas, which never raises) on floats with sentinels.
\<close>

fun fneg :: "pyfloat \<Rightarrow> pyfloat" where
  "fneg (Fin a) = Fin (- a)"
| "fneg PInf = NInf"
| "fneg NInf = PInf"
| "fneg NaN = NaN"

fun fadd :: "pyfloat \<Rightarrow> pyfloat \<Rightarrow> pyfloat" where
  "fadd NaN y = NaN"
| "fadd x NaN = NaN"
| "fadd (Fin a) (Fin b) = Fin (a + b)"
| "fadd PInf NInf = NaN"
| "fadd NInf PInf = NaN"
| "fadd PInf y = PInf"
| "fadd x PInf = PInf"
| "fadd NInf y = NInf"
| "fadd x NInf = NInf"

definition fsub :: "pyfloat \<Rightarrow> pyfloat \<Rightarrow> pyfloat" where
  "fsub x y = fadd x (fneg y)"

text \<open>The product of \<open>+inf\<close> with a float.\<close>

fun fscale_inf :: "pyfloat \<Rightarrow> pyfloat" where
  "fscale_inf (Fin b) = (if 0 < b then PInf else if b < 0 then NInf else NaN)"
| "fscale_inf PInf = PInf"
| "fscale_inf NInf = NInf"
| "fscale_inf NaN = NaN"

fun fmul :: "pyfloat \<Rightarrow> pyfloat \<Rightarrow> pyfloat" where
  "fmul NaN y = NaN"
| "fmul x NaN = NaN"
| "fmul (Fin a) (Fin b) = Fin (a * b)"
| "fmul PInf y = fscale_inf y"
| "fmul NInf y = fneg (fscale_inf y)"
| "fmul x PInf = fscale_inf x"
| "fmul x NInf = fneg (fscale_inf x)"

fun fdiv :: "pyfloat \<Rightarrow> pyfloat \<Rightarrow> pyfloat" where
  "fdiv NaN y = NaN"
| "fdiv x NaN = NaN"
| "fdiv (Fin a) (Fin b) = (if b = 0 then fscale_inf (Fin a) else Fin (a / b))"
| "fdiv (Fin a) y = Fin 0"
| "fdiv x (Fin b) = (if 0 \<le> b then x else fneg x)"
| "fdiv x y = NaN"

fun fsqrt :: "pyfloat \<Rightarrow> pyfloat" where
  "fsqrt (Fin a) = (if 0 \<le> a then Fin (sqrt a) else NaN)"
| "fsqrt PInf = PInf"
| "fsqrt NInf = NaN"
| "fsqrt NaN = NaN"

text \<open>\<open>np.log\<close>: no exception, \<open>-inf\<close> at zero and NaN below.\<close>

fun flog :: "pyfloat \<Rightarrow> pyfloat" where
  "flog (Fin a) = (if 0 < a then Fin (ln a) else if a = 0 then NInf else NaN)"
| "flog PInf = PInf"
| "flog NInf = NaN"
| "flog NaN = NaN"

text \<open>Python's own \<open>/\<close> on floats raises on a zero divisor, whatever the dividend.\<close>

definition py_truediv :: "pyfloat \<Rightarrow> pyfloat \<Rightarrow> error + pyfloat" where
  "py_truediv x y = (if y = Fin 0 then Inl ZeroDivisionError else Inr (fdiv x y))"

section \<open>The analytic pricing oracle\<close>

text \<open>
  \<open>math.erf\<close> is the error function of the C library. It is modelled by its Maclaurin
  series \<open>2/\<surd>\<pi> \<cdot> \<Sum> (-1)^n x^(2n+1) / (n! (2n+1))\<close>, which converges for every real \<open>x\<close>.
\<close>

definition erf_term :: "real \<Rightarrow> nat \<Rightarrow> real" where
  "erf_term x n = (- 1) ^ n * x ^ (2 * n + 1) / (fact n * real (2 * n + 1))"

definition erf :: "real \<Rightarrow> real" where
  "erf x = 2 / sqrt pi * (\<Sum>n. erf_term x n)"

text \<open>The nested helper \<open>norm_cdf\<close> of \<open>black_scholes_price\<close>.\<close>

definition norm_cdf :: "real \<Rightarrow> real" where
  "norm_cdf x = 0.5 * (1.0 + erf (x / sqrt 2.0))"

text \<open>
  \<open>black_scholes_price\<close>. Python's \<open>/\<close> raises \<open>ZeroDivisionError\<close> on a zero divisor
  and \<open>math.log\<close> raises \<open>ValueError\<close> outside its domain; both are branches of the
  model. \<open>math.sqrt\<close> is applied to a positive maturity only, and the divisor
  \<open>sigma_sqrt_t\<close> is a product of two positive numbers. The \<open>OverflowError\<close> of
  \<open>math.exp\<close> on an argument beyond the float range has no counterpart over the reals.
\<close>

definition black_scholes_price ::
  "real \<Rightarrow> real \<Rightarrow> real \<Rightarrow> real \<Rightarrow> real \<Rightarrow> real \<Rightarrow> bool \<Rightarrow> error + real" where
  "black_scholes_price spot strike rate dividend vol maturity is_call =
     (if maturity \<le> 0 \<or> vol \<le> 0 then
        Inr (if is_call then max 0.0 (spot - strike) else max 0.0 (strike - spot))
      else if strike = 0 then Inl ZeroDivisionError
      else if spot / strike \<le> 0 then Inl ValueError
      else
        let sqrt_t = sqrt maturity;
            sigma_sqrt_t = vol * sqrt_t;
            d1 = (ln (spot / strike) + (rate - dividend + 0.5 * vol * vol) * maturity)
                   / sigma_sqrt_t;
            d2 = d1 - sigma_sqrt_t;
            disc_rate = exp (- rate * maturity);
            disc_div = exp (- dividend * maturity)
        in if is_call then
             Inr (spot * disc_div * norm_cdf d1 - strike * disc_rate * norm_cdf d2)
           else
             Inr (strike * disc_rate * norm_cdf (- d2) - spot * disc_div * norm_cdf (- d1)))"

text \<open>
  The option-pricing check of \<open>main\<close> (the analytic price, the difference and the
  relative error of the Monte Carlo price), as a function of the engine's price and the
  market parameters.
\<close>

definition option_pricing_check ::
  "pyfloat \<Rightarrow> real \<Rightarrow> real \<Rightarrow> real \<Rightarrow> real \<Rightarrow> real \<Rightarrow> real \<Rightarrow> error + (real \<times> pyfloat \<times> pyfloat)" where
  "option_pricing_check mc_price spot strike rate dividend sigma maturity =
     (case black_scholes_price spot strike rate dividend sigma maturity True of
        Inl e \<Rightarrow> Inl e
      | Inr analytic \<Rightarrow>
          let diff = fsub mc_price (Fin analytic)
          in if Fin analytic \<noteq> Fin 0 then
               (case py_truediv diff (Fin analytic) of
                  Inl e \<Rightarrow> Inl e
                | Inr rel_err \<Rightarrow> Inr (analytic, diff, rel_err))
             else Inr (analytic, diff, PInf))"

section \<open>The empirical risk comparator\<close>

text \<open>
  \<open>np.quantile(a, q, method="higher")\<close> is NumPy's, not this repository's. Modelled
  from NumPy: a quantile outside \<open>[0, 1]\<close> (NaN included) is a \<open>ValueError\<close>;
  otherwise the virtual index is the float64 product \<open>(n - 1) * q\<close>, and the result is
  the element of the sorted sample whose index is the ceiling of the virtual index.

  The product is rounded as IEEE 754 binary64 does, to the nearest float, ties to the
  even significand: a positive \<open>x\<close> below \<open>2^53\<close> is scaled by the power of two that
  brings it into \<open>[2^52, 2^53)\<close> (at most by \<open>2^1074\<close>, the subnormal range), rounded to
  an integer and scaled back; from \<open>2^53\<close> on it is scaled down instead. Products
  beyond the float range do not arise from a sample that fits in memory.
\<close>

definition round_half_even :: "real \<Rightarrow> int" where
  "round_half_even y =
     (let f = \<lfloor>y\<rfloor>;
          d = y - of_int f
      in if d < 1 / 2 then f
         else if 1 / 2 < d then f + 1
         else if even f then f else f + 1)"

function scale_down :: "real \<Rightarrow> nat \<Rightarrow> nat" where
  "scale_down y k = (if 2 ^ 52 \<le> y \<or> 1074 \<le> k then k else scale_down (2 * y) (k + 1))"
  by pat_completeness auto
termination
  by (relation "measure (\<lambda>(y, k). 1074 - k)") auto

function scale_up :: "real \<Rightarrow> nat \<Rightarrow> nat" where
  "scale_up y k = (if y < 2 ^ 53 then k else scale_up (y / 2) (k + 1))"
  by pat_completeness auto
termination
proof (relation "measure (\<lambda>(y, k). nat \<lfloor>y\<rfloor>)")
  show "wf (measure (\<lambda>(y :: real, k :: nat). nat \<lfloor>y\<rfloor>))" by simp
next
  fix y :: real and k :: nat
  assume "\<not> y < 2 ^ 53"
  then have y: "2 \<le> y" by simp
  have "\<lfloor>y / 2\<rfloor> \<le> \<lfloor>y - 1\<rfloor>" using y by (intro floor_mono) simp
  then have "\<lfloor>y / 2\<rfloor> < \<lfloor>y\<rfloor>" by simp
  moreover have "0 < \<lfloor>y\<rfloor>" using y by simp
  ultimately show "((y / 2, k + 1), (y, k)) \<in> measure (\<lambda>(y, k). nat \<lfloor>y\<rfloor>)" by simp
qed

declare scale_down.simps [simp del] scale_up.simps [simp del]

definition round_pos :: "real \<Rightarrow> real" where
  "round_pos x =
     (if x = 0 then 0
      else if x < 2 ^ 53 then
        (let k = scale_down x 0 in of_int (round_half_even (x * 2 ^ k)) / 2 ^ k)
      else
        (let k = scale_up x 0 in of_int (round_half_even (x / 2 ^ k)) * 2 ^ k))"

definition round_f64 :: "real \<Rightarrow> real" where
  "round_f64 x = (if x < 0 then - round_pos (- x) else round_pos x)"

text \<open>
  The virtual index of a sample of \<open>n\<close> values at the quantile \<open>q\<close>: the integer
  \<open>n - 1\<close> is converted to a float and multiplied by the float \<open>q\<close>.
\<close>

definition virtual_index :: "nat \<Rightarrow> real \<Rightarrow> real" where
  "virtual_index n q = round_f64 (round_f64 (real (n - 1)) * q)"

definition quantile_higher :: "real list \<Rightarrow> pyfloat \<Rightarrow> error + real" where
  "quantile_higher a q =
     (case q of
        Fin p \<Rightarrow>
          if \<not> (0 \<le> p \<and> p \<le> 1) then Inl ValueError
          else
            let k = nat \<lceil>virtual_index (length a) p\<rceil>
            in if k < length a then Inr (sort a ! k) else Inl IndexError
      | _ \<Rightarrow> Inl ValueError)"

text \<open>\<open>compare_var\<close>: the pair (empirical VaR, relative gap).\<close>

definition compare_var ::
  "real list \<Rightarrow> pyfloat \<Rightarrow> pyfloat \<Rightarrow> error + (pyfloat \<times> pyfloat)" where
  "compare_var empirical_losses percentile simulated =
     (if length empirical_losses = 0 then Inr (NaN, NaN)
      else
        case quantile_higher empirical_losses percentile of
          Inl e \<Rightarrow> Inl e
        | Inr v \<Rightarrow>
            let empirical_var = Fin v;
                diff = fsub simulated empirical_var
            in if empirical_var \<noteq> Fin 0 then
                 (case py_truediv diff empirical_var of
                    Inl e \<Rightarrow> Inl e
                  | Inr rel \<Rightarrow> Inr (empirical_var, rel))
               else Inr (empirical_var, PInf))"

text \<open>
  The specification's reference point, in its words: the linearly interpolated quantile
  at an interpolated rank \<open>h\<close> of the sorted sample, between the order statistics of
  ranks \<open>\<lfloor>h\<rfloor>\<close> and \<open>\<lfloor>h\<rfloor> + 1\<close>; \<open>linear_quantile\<close> takes it at the virtual index
  NumPy computes, \<open>exact_linear_quantile\<close> at the unrounded rank \<open>(n - 1) p\<close>.
\<close>

definition linear_interp :: "real list \<Rightarrow> real \<Rightarrow> real" where
  "linear_interp s h =
     (let lo = nat \<lfloor>h\<rfloor>;
          g = h - real lo
      in if g = 0 then s ! lo else s ! lo + g * (s ! (lo + 1) - s ! lo))"

definition linear_quantile :: "real list \<Rightarrow> real \<Rightarrow> real" where
  "linear_quantile a p = linear_interp (sort a) (virtual_index (length a) p)"

definition exact_linear_quantile :: "real list \<Rightarrow> real \<Rightarrow> real" where
  "exact_linear_quantile a p = linear_interp (sort a) (real (length a - 1) * p)"

text \<open>
  The floats nearest to 0.8 and to 0.1, the percentiles of the examples, and the sample
  of the eleven losses 0, 1, ..., 10.
\<close>

definition float_0_8 :: real where
  "float_0_8 = 3602879701896397 / 4503599627370496"

definition float_0_1 :: real where
  "float_0_1 = 3602879701896397 / 36028797018963968"

definition eleven_losses :: "real list" where
  "eleven_losses = [0, 1, 2, 3, 4, 5, 6, 7, 8, 9, 10]"

section \<open>The realised-statistics estimator\<close>

text \<open>
  A row of the price history, with the columns \<open>download_history\<close> renames to; the
  history is the list of its rows in index order. (\<open>open\<close> is a keyword here, hence
  \<open>open_price\<close>.)
\<close>

record bar =
  open_price :: real
  high :: real
  low :: real
  close :: real
  adj_close :: real
  volume :: real

text \<open>
  The pandas operations \<open>realised_statistics\<close> calls, on a series given as the list of
  its values: \<open>shift(1)\<close> moves every value one row down and puts NaN first;
  \<open>dropna\<close> removes the NaN entries; \<open>mean\<close> and \<open>std\<close> skip NaN entries, the mean
  of no value is NaN (0/0), and the variance with \<open>ddof\<close> delta degrees of freedom is
  NaN unless more than \<open>ddof\<close> values are left, else the sum of the squared deviations
  from the mean divided by \<open>count - ddof\<close>.
\<close>

definition shift1 :: "pyfloat list \<Rightarrow> pyfloat list" where
  "shift1 xs = (if xs = [] then [] else NaN # butlast xs)"

definition dropna :: "pyfloat list \<Rightarrow> pyfloat list" where
  "dropna xs = filter (\<lambda>x. x \<noteq> NaN) xs"

definition fsum :: "pyfloat list \<Rightarrow> pyfloat" where
  "fsum xs = foldr fadd xs (Fin 0)"

definition series_mean :: "pyfloat list \<Rightarrow> pyfloat" where
  "series_mean xs =
     (let values = dropna xs;
          count = length values
      in fdiv (fsum values) (Fin (real count)))"

definition series_var :: "nat \<Rightarrow> pyfloat list \<Rightarrow> pyfloat" where
  "series_var ddof xs =
     (let values = dropna xs;
          count = length values
      in if count \<le> ddof then NaN
         else
           let avg = fdiv (fsum values) (Fin (real count));
               sqr = map (\<lambda>x. fmul (fsub avg x) (fsub avg x)) values
           in fdiv (fsum sqr) (Fin (real (count - ddof))))"

definition series_std :: "nat \<Rightarrow> pyfloat list \<Rightarrow> pyfloat" where
  "series_std ddof xs = fsqrt (series_var ddof xs)"

text \<open>
  \<open>realised_statistics\<close>. The quotient \<open>close / close.shift(1)\<close> pairs every close
  with the one of the row before. The function has no \<open>raise\<close> and none of its
  operations raises on floats: it always returns.
\<close>

definition realised_statistics :: "bar list \<Rightarrow> error + (pyfloat \<times> pyfloat)" where
  "realised_statistics history =
     (let closes = map (\<lambda>row. Fin (close row)) history;
          returns = dropna (map flog (map2 fdiv closes (shift1 closes)));
          mu = fmul (series_mean returns) (Fin 252.0);
          sigma = fmul (series_std 1 returns) (Fin (sqrt 252.0))
      in Inr (mu, sigma))"

text \<open>
  The specification's quantities, in its words: the log returns of consecutive closes,
  their mean, and their Bessel-corrected sample standard deviation (the divisor is the
  number of returns minus one).
\<close>

fun log_returns :: "real list \<Rightarrow> real list" where
  "log_returns (a # b # xs) = ln (b / a) # log_returns (b # xs)"
| "log_returns xs = []"

definition mean :: "real list \<Rightarrow> real" where
  "mean rs = sum_list rs / real (length rs)"

definition bessel_std :: "real list \<Rightarrow> real" where
  "bessel_std rs = sqrt ((\<Sum>r\<leftarrow>rs. (r - mean rs) ^ 2) / real (length rs - 1))"

text \<open>A row whose prices all equal \<open>c\<close>, for the examples.\<close>

definition flat_bar :: "real \<Rightarrow> bar" where
  "flat_bar c =
     \<lparr>open_price = c, high = c, low = c, close = c, adj_close = c, volume = 0\<rparr>"

section \<open>The engine invocation adapter\<close>

text \<open>
  What \<open>subprocess.run\<close> returns (\<open>capture_output=True, text=True\<close>), the values of
  a request dictionary, and a decoded JSON document.
\<close>

record completed_process =
  returncode :: int
  stdout :: string
  stderr :: string

datatype pyval = PyInt int | PyFloat pyfloat | PyStr string

text \<open>A Python dictionary keeps its keys in insertion order: an association list.\<close>

type_synonym payload = "(string \<times> pyval) list"

datatype json =
    JNull
  | JBool bool
  | JNum pyfloat
  | JStr string
  | JArr "json list"
  | JObj "(string \<times> json) list"

text \<open>
  The command lines handed to \<open>subprocess.run\<close> so far, oldest first: the effect of
  the adapter on the world.
\<close>

type_synonym invocations = "string list list"

text \<open>
  What the script does not define itself: the file system and the engine process, which
  may answer differently as the run goes on (they see the invocations issued so far),
  and the library functions \<open>json.loads\<close> (\<open>None\<close> for a \<open>JSONDecodeError\<close>),
  \<open>str\<close> on a float and \<open>float\<close> on a string. \<open>subprocess.run\<close> itself raises
  \<open>OSError\<close> when the process cannot be started.
\<close>

record env =
  path_exists :: "invocations \<Rightarrow> string \<Rightarrow> bool"
  subprocess_run :: "invocations \<Rightarrow> string list \<Rightarrow> error + completed_process"
  json_loads :: "string \<Rightarrow> json option"
  float_repr :: "pyfloat \<Rightarrow> string"
  float_of_str :: "string \<Rightarrow> pyfloat option"

text \<open>\<open>str\<close> on an integer: its decimal digits, after a minus sign when negative.\<close>

function str_nat :: "nat \<Rightarrow> string" where
  "str_nat n =
     (if n < 10 then [''0123456789'' ! n]
      else str_nat (n div 10) @ [''0123456789'' ! (n mod 10)])"
  by pat_completeness auto
termination
  by (relation "measure (\<lambda>n. n)") auto

declare str_nat.simps [simp del]

definition str_int :: "int \<Rightarrow> string" where
  "str_int i = (if i < 0 then CHR ''-'' # str_nat (nat (- i)) else str_nat (nat i))"

text \<open>The text an f-string puts in for a value.\<close>

fun py_str :: "env \<Rightarrow> pyval \<Rightarrow> string" where
  "py_str w (PyInt i) = str_int i"
| "py_str w (PyFloat x) = float_repr w x"
| "py_str w (PyStr s) = s"

text \<open>
  \<open>d[k] = v\<close>: a key already in the dictionary keeps its place, a new one goes last.
\<close>

fun dict_set :: "('k \<times> 'v) list \<Rightarrow> 'k \<Rightarrow> 'v \<Rightarrow> ('k \<times> 'v) list" where
  "dict_set [] k v = [(k, v)]"
| "dict_set ((k', v') # d) k v =
     (if k' = k then (k, v) # d else (k', v') # dict_set d k v)"

text \<open>The command line of \<open>run_risk_sim\<close>.\<close>

definition build_cli :: "env \<Rightarrow> string \<Rightarrow> string \<Rightarrow> payload \<Rightarrow> string list" where
  "build_cli w binary command args =
     [binary, command]
       @ map (\<lambda>(key, value). ''--'' @ key @ ''='' @ py_str w value) args
       @ [''--format=json'']"

text \<open>
  \<open>run_risk_sim\<close>, with the invocations issued so far passed in and returned. A
  missing binary is a \<open>SystemExit\<close> before anything is invoked; a non-zero exit status
  is a \<open>RuntimeError\<close> whose message ends with \<open>result.stderr or result.stdout\<close>.
\<close>

definition run_risk_sim ::
  "env \<Rightarrow> string \<Rightarrow> string \<Rightarrow> payload \<Rightarrow> invocations \<Rightarrow> (error + json) \<times> invocations" where
  "run_risk_sim w binary command args issued =
     (if \<not> path_exists w issued binary then
        (Inl (SystemExit (''risk_sim binary not found at '' @ binary
                            @ ''. Build the project first.'')), issued)
      else
        let cli = build_cli w binary command args;
            issued' = issued @ [cli]
        in case subprocess_run w issued cli of
             Inl e \<Rightarrow> (Inl e, issued')
           | Inr result \<Rightarrow>
               if returncode result \<noteq> 0 then
                 (Inl (RuntimeError (''risk_sim failed ('' @ command @ ''): ''
                        @ (if stderr result \<noteq> [] then stderr result else stdout result))),
                  issued')
               else
                 (case json_loads w (stdout result) of
                    None \<Rightarrow> (Inl JSONDecodeError, issued')
                  | Some document \<Rightarrow> (Inr document, issued')))"

section \<open>The convergence sweep\<close>

text \<open>
  Reading a response: \<open>x[key]\<close> raises \<open>KeyError\<close> on a dictionary without the key
  and \<open>TypeError\<close> on anything that is not a dictionary (a list or a string takes no
  string index); \<open>x.get(key, default)\<close> exists on dictionaries only; \<open>float(x)\<close>
  accepts numbers, Booleans and the strings that spell a float.
\<close>

fun json_getitem :: "json \<Rightarrow> string \<Rightarrow> error + json" where
  "json_getitem (JObj d) key =
     (case map_of d key of None \<Rightarrow> Inl (KeyError key) | Some v \<Rightarrow> Inr v)"
| "json_getitem j key = Inl TypeError"

fun json_get :: "json \<Rightarrow> string \<Rightarrow> json \<Rightarrow> error + json" where
  "json_get (JObj d) key dflt =
     (case map_of d key of None \<Rightarrow> Inr dflt | Some v \<Rightarrow> Inr v)"
| "json_get j key dflt = Inl AttributeError"

fun py_float :: "env \<Rightarrow> json \<Rightarrow> error + pyfloat" where
  "py_float w (JNum x) = Inr x"
| "py_float w (JBool b) = Inr (Fin (if b then 1 else 0))"
| "py_float w (JStr s) =
     (case float_of_str w s of None \<Rightarrow> Inl ValueError | Some x \<Rightarrow> Inr x)"
| "py_float w j = Inl TypeError"

text \<open>One line of the sweep's report: the sample count, the price, its standard error.\<close>

record sweep_point =
  point_paths :: int
  point_price :: pyfloat
  point_stderr :: pyfloat

text \<open>
  The two reads of the loop body, \<open>float(response["result"]["price"])\<close> and
  \<open>float(response["result"].get("standardError", 0.0))\<close>, in the order of the source.
\<close>

definition read_point :: "env \<Rightarrow> int \<Rightarrow> json \<Rightarrow> error + sweep_point" where
  "read_point w paths response =
     (case json_getitem response ''result'' of
        Inl e \<Rightarrow> Inl e
      | Inr r1 \<Rightarrow>
     (case json_getitem r1 ''price'' of
        Inl e \<Rightarrow> Inl e
      | Inr p \<Rightarrow>
     (case py_float w p of
        Inl e \<Rightarrow> Inl e
      | Inr price \<Rightarrow>
     (case json_getitem response ''result'' of
        Inl e \<Rightarrow> Inl e
      | Inr r2 \<Rightarrow>
     (case json_get r2 ''standardError'' (JNum (Fin 0.0)) of
        Inl e \<Rightarrow> Inl e
      | Inr s \<Rightarrow>
     (case py_float w s of
        Inl e \<Rightarrow> Inl e
      | Inr stderr' \<Rightarrow>
          Inr \<lparr>point_paths = paths, point_price = price, point_stderr = stderr'\<rparr>))))))"

text \<open>The dictionary \<open>option_payload\<close> that \<open>main\<close> builds; its seed is 42.\<close>

definition option_payload ::
  "pyfloat \<Rightarrow> pyfloat \<Rightarrow> pyfloat \<Rightarrow> pyfloat \<Rightarrow> pyfloat \<Rightarrow> pyfloat \<Rightarrow> int \<Rightarrow> payload" where
  "option_payload spot strike rate dividend sigma maturity paths =
     [(''spot'', PyFloat spot),
      (''strike'', PyFloat strike),
      (''rate'', PyFloat rate),
      (''dividend'', PyFloat dividend),
      (''vol'', PyFloat sigma),
      (''maturity'', PyFloat maturity),
      (''steps'', PyInt 252),
      (''paths'', PyInt paths),
      (''seed'', PyInt 42),
      (''antithetic'', PyStr ''true''),
      (''control'', PyStr ''true''),
      (''block'', PyInt 4096),
      (''type'', PyStr ''call'')]"

text \<open>
  The request of iteration \<open>i\<close> of the sweep: a copy of the base request with
  \<open>paths\<close> set to \<open>args.paths * (i + 1)\<close> and \<open>seed\<close> set to \<open>100 + i\<close>.
\<close>

definition sweep_payload :: "payload \<Rightarrow> int \<Rightarrow> nat \<Rightarrow> payload" where
  "sweep_payload base base_paths i =
     (let paths = base_paths * (int i + 1);
          payload1 = dict_set base ''paths'' (PyInt paths)
      in dict_set payload1 ''seed'' (PyInt (100 + int i)))"

text \<open>
  The body of the \<open>for\<close> loop at iteration \<open>i\<close>: the request is sent and the
  response read; an exception of either leaves the body with the error.
\<close>

definition sweep_iteration ::
  "env \<Rightarrow> string \<Rightarrow> payload \<Rightarrow> int \<Rightarrow> nat \<Rightarrow> invocations
     \<Rightarrow> (error + sweep_point) \<times> invocations" where
  "sweep_iteration w binary base base_paths i issued =
     (case run_risk_sim w binary ''option'' (sweep_payload base base_paths i) issued of
        (Inl e, issued') \<Rightarrow> (Inl e, issued')
      | (Inr response, issued') \<Rightarrow>
          (case read_point w (base_paths * (int i + 1)) response of
             Inl e \<Rightarrow> (Inl e, issued')
           | Inr point \<Rightarrow> (Inr point, issued')))"

text \<open>
  The \<open>for\<close> loop over \<open>range(args.stress_runs)\<close>: an exception in an iteration ends
  the loop, and the later requests are not issued.
\<close>

fun sweep_loop ::
  "env \<Rightarrow> string \<Rightarrow> payload \<Rightarrow> int \<Rightarrow> nat list \<Rightarrow> invocations
     \<Rightarrow> (error + sweep_point list) \<times> invocations" where
  "sweep_loop w binary base base_paths [] issued = (Inr [], issued)"
| "sweep_loop w binary base base_paths (i # rest) issued =
     (case sweep_iteration w binary base base_paths i issued of
        (Inl e, issued') \<Rightarrow> (Inl e, issued')
      | (Inr point, issued') \<Rightarrow>
          (case sweep_loop w binary base base_paths rest issued' of
             (Inl e, issued'') \<Rightarrow> (Inl e, issued'')
           | (Inr points, issued'') \<Rightarrow> (Inr (point # points), issued'')))"

definition convergence_sweep ::
  "env \<Rightarrow> string \<Rightarrow> payload \<Rightarrow> int \<Rightarrow> int \<Rightarrow> invocations
     \<Rightarrow> (error + sweep_point list) \<times> invocations" where
  "convergence_sweep w binary base base_paths stress_runs issued =
     (if stress_runs > 0 then
        sweep_loop w binary base base_paths [0..<nat stress_runs] issued
      else (Inr [], issued))"

text \<open>
  For the statements about the sweep: the command line of the request of iteration
  \<open>i\<close>, the invocations issued once the iterations before \<open>i\<close> have all sent theirs,
  and the outcome of iteration \<open>i\<close> in that situation.
\<close>

definition sweep_cli :: "env \<Rightarrow> string \<Rightarrow> payload \<Rightarrow> int \<Rightarrow> nat \<Rightarrow> string list" where
  "sweep_cli w binary base base_paths i =
     build_cli w binary ''option'' (sweep_payload base base_paths i)"

definition issued_before ::
  "env \<Rightarrow> string \<Rightarrow> payload \<Rightarrow> int \<Rightarrow> invocations \<Rightarrow> nat \<Rightarrow> invocations" where
  "issued_before w binary base base_paths issued i =
     issued @ map (sweep_cli w binary base base_paths) [0..<i]"

definition iteration_outcome ::
  "env \<Rightarrow> string \<Rightarrow> payload \<Rightarrow> int \<Rightarrow> invocations \<Rightarrow> nat \<Rightarrow> error + sweep_point" where
  "iteration_outcome w binary base base_paths issued i =
     fst (sweep_iteration w binary base base_paths i
            (issued_before w binary base base_paths issued i))"

section \<open>Example environments\<close>

text \<open>
  An engine that always answers with a price of 1, and an engine that always exits with
  a given status and given output streams; the base request and the command lines of
  the sweep example.
\<close>

definition engine_ok :: env where
  "engine_ok =
     \<lparr>path_exists = (\<lambda>issued path. True),
      subprocess_run = (\<lambda>issued cli. Inr \<lparr>returncode = 0, stdout = ''{}'', stderr = []\<rparr>),
      json_loads = (\<lambda>text. Some (JObj [(''result'', JObj [(''price'', JNum (Fin 1))])])),
      float_repr = (\<lambda>x. ''0.0''),
      float_of_str = (\<lambda>text. None)\<rparr>"

definition engine_failing :: "int \<Rightarrow> string \<Rightarrow> string \<Rightarrow> env" where
  "engine_failing status out err =
     \<lparr>path_exists = (\<lambda>issued path. True),
      subprocess_run = (\<lambda>issued cli. Inr \<lparr>returncode = status, stdout = out, stderr = err\<rparr>),
      json_loads = (\<lambda>text. None),
      float_repr = (\<lambda>x. ''0.0''),
      float_of_str = (\<lambda>text. None)\<rparr>"

text \<open>
  An engine that answers the first \<open>n\<close> invocations with a price of 1 and exits with
  status 1 and the standard-error text \<open>boom\<close> from then on.
\<close>

definition engine_failing_after :: "nat \<Rightarrow> env" where
  "engine_failing_after n =
     \<lparr>path_exists = (\<lambda>issued path. True),
      subprocess_run = (\<lambda>issued cli.
         if length issued < n then Inr \<lparr>returncode = 0, stdout = ''{}'', stderr = []\<rparr>
         else Inr \<lparr>returncode = 1, stdout = [], stderr = ''boom''\<rparr>),
      json_loads = (\<lambda>text. Some (JObj [(''result'', JObj [(''price'', JNum (Fin 1))])])),
      float_repr = (\<lambda>x. ''0.0''),
      float_of_str = (\<lambda>text. None)\<rparr>"

definition example_base :: payload where
  "example_base = option_payload (Fin 100) (Fin 100) (Fin 0) (Fin 0) (Fin 1) (Fin 1) 1000"

definition example_cli :: "string \<Rightarrow> string \<Rightarrow> string list" where
  "example_cli p s =
     [''build/risk_sim'', ''option'', ''--spot=0.0'', ''--strike=0.0'', ''--rate=0.0'',
      ''--dividend=0.0'', ''--vol=0.0'', ''--maturity=0.0'', ''--steps=252'',
      ''--paths='' @ p, ''--seed='' @ s, ''--antithetic=true'', ''--control=true'',
      ''--block=4096'', ''--type=call'', ''--format=json'']"

section \<open>Properties of the pricing oracle\<close>

lemma erf_term_minus: "erf_term (- x) n = - erf_term x n"
  by (simp add: erf_term_def)

lemma erf_term_summable: "summable (erf_term x)"
proof (rule summable_comparison_test')
  show "summable (\<lambda>n. \<bar>x\<bar> * (inverse (fact n) * (x ^ 2) ^ n))"
    by (rule summable_mult) (rule summable_exp)
next
  fix n :: nat
  assume "0 \<le> n"
  have a: "norm (erf_term x n) = \<bar>x\<bar> * (x ^ 2) ^ n / (fact n * real (2 * n + 1))"
    by (simp add: erf_term_def abs_mult power_abs power_mult power_even_abs
        del: of_nat_Suc of_nat_add)
  have "\<bar>x\<bar> * (x ^ 2) ^ n / (fact n * real (2 * n + 1)) \<le> \<bar>x\<bar> * (x ^ 2) ^ n / (fact n * 1)"
    by (intro divide_left_mono mult_left_mono mult_nonneg_nonneg mult_pos_pos) simp_all
  with a show "norm (erf_term x n) \<le> \<bar>x\<bar> * (inverse (fact n) * (x ^ 2) ^ n)"
    by (simp add: field_simps)
qed

lemma erf_minus: "erf (- x) = - erf x"
  by (simp add: erf_def erf_term_minus suminf_minus erf_term_summable)

lemma norm_cdf_reflect: "norm_cdf x + norm_cdf (- x) = 1"
  by (simp add: norm_cdf_def erf_minus field_simps)

text \<open>
  C1 (put-call parity). For positive spot, strike, volatility and maturity and any rate
  and dividend yield, both prices are returned (no exception), and the call price minus
  the put price is \<open>S\<cdot>exp(-qT) - K\<cdot>exp(-rT)\<close>. Floats are read as the reals they denote,
  so the identity is exact here; the tolerance of the claim accounts for rounding.
\<close>

theorem put_call_parity:
  assumes "0 < S" and "0 < K" and "0 < \<sigma>" and "0 < T"
  shows "\<exists>c p. black_scholes_price S K r q \<sigma> T True = Inr c
           \<and> black_scholes_price S K r q \<sigma> T False = Inr p
           \<and> c - p = S * exp (- q * T) - K * exp (- r * T)"
proof -
  define d1 where "d1 = (ln (S / K) + (r - q + 0.5 * \<sigma> * \<sigma>) * T) / (\<sigma> * sqrt T)"
  define d2 where "d2 = d1 - \<sigma> * sqrt T"
  define c where "c = S * exp (- q * T) * norm_cdf d1 - K * exp (- r * T) * norm_cdf d2"
  define p where "p = K * exp (- r * T) * norm_cdf (- d2) - S * exp (- q * T) * norm_cdf (- d1)"
  from assms have ratio: "\<not> S / K \<le> 0" by (simp add: not_le)
  from assms ratio have call: "black_scholes_price S K r q \<sigma> T True = Inr c"
    by (simp add: black_scholes_price_def Let_def c_def d2_def d1_def)
  from assms ratio have put: "black_scholes_price S K r q \<sigma> T False = Inr p"
    by (simp add: black_scholes_price_def Let_def p_def d2_def d1_def)
  have "c - p = S * exp (- q * T) * (norm_cdf d1 + norm_cdf (- d1))
                 - K * exp (- r * T) * (norm_cdf d2 + norm_cdf (- d2))"
    by (simp add: c_def p_def algebra_simps)
  then have "c - p = S * exp (- q * T) - K * exp (- r * T)"
    by (simp add: norm_cdf_reflect)
  with call put show ?thesis by blast
qed

theorem put_call_parity_witness:
  "(0::real) < 100 \<and> (0::real) < 95 \<and> (0::real) < 1 / 5 \<and> (0::real) < 1
   \<and> (\<exists>c p. black_scholes_price 100 95 (1 / 50) (1 / 100) (1 / 5) 1 True = Inr c
           \<and> black_scholes_price 100 95 (1 / 50) (1 / 100) (1 / 5) 1 False = Inr p
           \<and> c - p = 100 * exp (- (1 / 100) * 1) - 95 * exp (- (1 / 50) * 1))"
  using put_call_parity [of 100 95 "1 / 5" 1 "1 / 50" "1 / 100"] by simp

text \<open>
  C2 (degenerate case). When the maturity or the volatility is not positive, the
  oracle returns the intrinsic value: \<open>max(0, spot - strike)\<close> for a call and
  \<open>max(0, strike - spot)\<close> for a put, whatever the other parameters are.
\<close>

theorem degenerate_intrinsic:
  assumes "maturity \<le> 0 \<or> vol \<le> 0"
  shows "black_scholes_price spot strike rate dividend vol maturity True
           = Inr (max 0 (spot - strike))
       \<and> black_scholes_price spot strike rate dividend vol maturity False
           = Inr (max 0 (strike - spot))"
  using assms by (simp add: black_scholes_price_def)

theorem degenerate_intrinsic_witness:
  "((0::real) \<le> 0 \<or> (1 / 5 :: real) \<le> 0)
   \<and> black_scholes_price 100 95 (1 / 50) (1 / 100) (1 / 5) 0 True = Inr 5
   \<and> black_scholes_price 100 95 (1 / 50) (1 / 100) (1 / 5) 0 False = Inr 0"
  using degenerate_intrinsic [of 0 "1 / 5" 100 95 "1 / 50" "1 / 100"] by simp


section \<open>Properties of the risk comparator\<close>

lemmas round_eval =
  round_f64_def round_pos_def scale_down.simps scale_up.simps round_half_even_def Let_def

lemma round_half_even_of_int: "round_half_even (of_int z) = z"
  by (simp add: round_half_even_def)

lemma round_half_even_nonneg:
  assumes "0 \<le> y"
  shows "0 \<le> round_half_even y"
proof -
  from assms have "0 \<le> \<lfloor>y\<rfloor>" by simp
  then show ?thesis by (simp add: round_half_even_def Let_def)
qed

lemma round_half_even_le:
  assumes "y \<le> of_int M"
  shows "round_half_even y \<le> M"
proof (cases "y = of_int M")
  case True
  then show ?thesis by (simp add: round_half_even_of_int)
next
  case False
  with assms have "y < of_int M" by simp
  then have "\<lfloor>y\<rfloor> < M" by (simp add: floor_less_iff)
  then have "\<lfloor>y\<rfloor> + 1 \<le> M" by simp
  then show ?thesis by (simp add: round_half_even_def Let_def)
qed

lemma round_pos_bounds:
  assumes "0 \<le> x" and "x \<le> real m" and "m < 2 ^ 53"
  shows "0 \<le> round_pos x \<and> round_pos x \<le> real m"
proof (cases "x = 0")
  case True
  then show ?thesis by (simp add: round_pos_def)
next
  case False
  define k where "k = scale_down x 0"
  from assms(3) have "real m < 2 ^ 53"
    by (metis of_nat_less_iff of_nat_numeral of_nat_power)
  with assms(2) have small: "x < 2 ^ 53" by simp
  with False have r: "round_pos x = of_int (round_half_even (x * 2 ^ k)) / 2 ^ k"
    by (simp add: round_pos_def k_def Let_def)
  from assms(1) have "0 \<le> x * 2 ^ k" by simp
  then have "0 \<le> round_half_even (x * 2 ^ k)" by (rule round_half_even_nonneg)
  then have lower: "0 \<le> round_pos x" by (simp add: r)
  from assms(2) have "x * 2 ^ k \<le> real m * 2 ^ k" by simp
  also have "\<dots> = of_int (int m * 2 ^ k)" by simp
  finally have "round_half_even (x * 2 ^ k) \<le> int m * 2 ^ k" by (rule round_half_even_le)
  then have "(of_int (round_half_even (x * 2 ^ k)) :: real) \<le> of_int (int m * 2 ^ k)"
    by (simp only: of_int_le_iff)
  then have "of_int (round_half_even (x * 2 ^ k)) / 2 ^ k \<le> real m"
    by (simp add: field_simps)
  with lower r show ?thesis by simp
qed

lemma round_pos_nat:
  assumes "m < 2 ^ 53"
  shows "round_pos (real m) = real m"
proof (cases "m = 0")
  case True
  then show ?thesis by (simp add: round_pos_def)
next
  case False
  define k where "k = scale_down (real m) 0"
  from assms have "real m < 2 ^ 53"
    by (metis of_nat_less_iff of_nat_numeral of_nat_power)
  with False have "round_pos (real m) = of_int (round_half_even (real m * 2 ^ k)) / 2 ^ k"
    by (simp add: round_pos_def k_def Let_def)
  also have "real m * 2 ^ k = of_int (int m * 2 ^ k)" by simp
  also have "of_int (round_half_even (of_int (int m * 2 ^ k))) / 2 ^ k = real m"
    by (simp only: round_half_even_of_int) simp
  finally show ?thesis .
qed

lemma virtual_index_bounds:
  assumes "0 < n" and "n \<le> 2 ^ 53" and "0 \<le> p" and "p \<le> 1"
  shows "0 \<le> virtual_index n p \<and> virtual_index n p \<le> real (n - 1)"
proof -
  from assms(1,2) have m: "n - 1 < 2 ^ 53" by simp
  have conv: "round_f64 (real (n - 1)) = real (n - 1)"
    using round_pos_nat [OF m] by (simp add: round_f64_def)
  have nonneg: "0 \<le> real (n - 1) * p" using assms(3) by simp
  have "real (n - 1) * p \<le> real (n - 1) * 1"
    using assms(4) by (intro mult_left_mono) simp_all
  then have le: "real (n - 1) * p \<le> real (n - 1)" by simp
  from nonneg have "round_f64 (real (n - 1) * p) = round_pos (real (n - 1) * p)"
    by (simp add: round_f64_def)
  with round_pos_bounds [OF nonneg le m] show ?thesis
    unfolding virtual_index_def conv by simp
qed

lemma higher_index_bound:
  assumes "a \<noteq> []" and "length a \<le> 2 ^ 53" and "0 \<le> p" and "p \<le> 1"
  shows "nat \<lceil>virtual_index (length a) p\<rceil> < length a"
proof -
  from assms(1) have n: "0 < length a" by simp
  from virtual_index_bounds [OF n assms(2-4)]
  have "virtual_index (length a) p \<le> real (length a - 1)" by simp
  then have "\<lceil>virtual_index (length a) p\<rceil> \<le> int (length a - 1)"
    by (simp add: ceiling_le_iff)
  with n show ?thesis by linarith
qed

lemma quantile_higher_at:
  assumes "0 \<le> p" and "p \<le> 1" and "virtual_index (length a) p = h"
    and "nat \<lceil>h\<rceil> = k" and "k < length a"
  shows "quantile_higher a (Fin p) = Inr (sort a ! k)"
  using assms by (simp add: quantile_higher_def Let_def)

lemma higher_least:
  fixes h :: real
  assumes "h \<le> real j"
  shows "nat \<lceil>h\<rceil> \<le> j"
proof -
  from assms have "\<lceil>h\<rceil> \<le> int j" by (simp add: ceiling_le_iff)
  then show ?thesis by linarith
qed

lemma floor_ceiling_cases:
  fixes h :: real
  assumes "0 \<le> h"
  shows "(h - real (nat \<lfloor>h\<rfloor>) = 0 \<and> nat \<lceil>h\<rceil> = nat \<lfloor>h\<rfloor>)
       \<or> (0 < h - real (nat \<lfloor>h\<rfloor>) \<and> h - real (nat \<lfloor>h\<rfloor>) < 1 \<and> nat \<lceil>h\<rceil> = nat \<lfloor>h\<rfloor> + 1)"
proof (cases "h = of_int \<lfloor>h\<rfloor>")
  case True
  then have "\<lceil>h\<rceil> = \<lfloor>h\<rfloor>" by (metis ceiling_of_int)
  moreover have "0 \<le> \<lfloor>h\<rfloor>" using assms by simp
  ultimately show ?thesis using True by simp
next
  case False
  have nn: "0 \<le> \<lfloor>h\<rfloor>" using assms by simp
  then have r: "real (nat \<lfloor>h\<rfloor>) = of_int \<lfloor>h\<rfloor>" by simp
  have lt: "of_int \<lfloor>h\<rfloor> < h" using False of_int_floor_le [of h] by linarith
  have ub: "h - of_int \<lfloor>h\<rfloor> < 1" by linarith
  have "\<lceil>h\<rceil> = \<lfloor>h\<rfloor> + 1" using False by (simp add: ceiling_altdef)
  then have "nat \<lceil>h\<rceil> = nat \<lfloor>h\<rfloor> + 1" using nn by (simp add: nat_add_distrib)
  with lt ub r show ?thesis by simp
qed

lemma higher_ge_linear:
  assumes "sorted s" and "0 \<le> h" and "nat \<lceil>h\<rceil> < length s"
  shows "linear_interp s h \<le> s ! nat \<lceil>h\<rceil>"
proof -
  define lo where "lo = nat \<lfloor>h\<rfloor>"
  define g where "g = h - real lo"
  from floor_ceiling_cases [OF assms(2)]
  show ?thesis
  proof
    assume "h - real (nat \<lfloor>h\<rfloor>) = 0 \<and> nat \<lceil>h\<rceil> = nat \<lfloor>h\<rfloor>"
    then show ?thesis by (simp add: linear_interp_def Let_def)
  next
    assume "0 < h - real (nat \<lfloor>h\<rfloor>) \<and> h - real (nat \<lfloor>h\<rfloor>) < 1 \<and> nat \<lceil>h\<rceil> = nat \<lfloor>h\<rfloor> + 1"
    then have g: "0 < g" "g < 1" and k: "nat \<lceil>h\<rceil> = lo + 1"
      unfolding g_def lo_def by blast+
    have mono: "s ! lo \<le> s ! (lo + 1)"
      using assms(1,3) k by (intro sorted_nth_mono) simp_all
    have lin: "linear_interp s h = s ! lo + g * (s ! (lo + 1) - s ! lo)"
      using g unfolding linear_interp_def Let_def lo_def [symmetric] g_def [symmetric] by simp
    have "g * (s ! (lo + 1) - s ! lo) \<le> 1 * (s ! (lo + 1) - s ! lo)"
      using g mono by (intro mult_right_mono) simp_all
    with lin k show ?thesis by simp
  qed
qed

lemma higher_least_above_linear:
  assumes "sorted s" and "0 \<le> h" and "nat \<lceil>h\<rceil> < length s"
    and "y \<in> set s" and "linear_interp s h \<le> y"
  shows "s ! nat \<lceil>h\<rceil> \<le> y"
proof -
  define lo where "lo = nat \<lfloor>h\<rfloor>"
  define g where "g = h - real lo"
  from assms(4) obtain j where j: "j < length s" "y = s ! j"
    by (metis in_set_conv_nth)
  from floor_ceiling_cases [OF assms(2)]
  show ?thesis
  proof
    assume "h - real (nat \<lfloor>h\<rfloor>) = 0 \<and> nat \<lceil>h\<rceil> = nat \<lfloor>h\<rfloor>"
    then have "linear_interp s h = s ! nat \<lceil>h\<rceil>"
      by (simp add: linear_interp_def Let_def)
    with assms(5) show ?thesis by simp
  next
    assume "0 < h - real (nat \<lfloor>h\<rfloor>) \<and> h - real (nat \<lfloor>h\<rfloor>) < 1 \<and> nat \<lceil>h\<rceil> = nat \<lfloor>h\<rfloor> + 1"
    then have g: "0 < g" "g < 1" and k: "nat \<lceil>h\<rceil> = lo + 1"
      unfolding g_def lo_def by blast+
    have mono: "s ! lo \<le> s ! (lo + 1)"
      using assms(1,3) k by (intro sorted_nth_mono) simp_all
    have lin: "linear_interp s h = s ! lo + g * (s ! (lo + 1) - s ! lo)"
      using g unfolding linear_interp_def Let_def lo_def [symmetric] g_def [symmetric] by simp
    show ?thesis
    proof (cases "lo + 1 \<le> j")
      case True
      then have "s ! (lo + 1) \<le> s ! j"
        using assms(1) j by (intro sorted_nth_mono) simp_all
      with j k show ?thesis by simp
    next
      case False
      then have "j \<le> lo" by simp
      moreover have "lo < length s" using assms(3) k by simp
      ultimately have "s ! j \<le> s ! lo"
        using assms(1) by (intro sorted_nth_mono) simp_all
      with assms(5) lin j have "g * (s ! (lo + 1) - s ! lo) \<le> 0" by simp
      with g have "s ! (lo + 1) - s ! lo \<le> 0"
        by (simp add: mult_le_0_iff)
      with mono have "s ! (lo + 1) = s ! lo" by simp
      with lin have "linear_interp s h = s ! (lo + 1)" by simp
      with assms(5) k show ?thesis by simp
    qed
  qed
qed

text \<open>
  C3 as stated fails: NumPy takes the ceiling of the interpolated rank after rounding
  it to a float. On the eleven losses 0, ..., 10 at the float 0.1 the rank
  \<open>10 \<cdot> 0.1\<close> is above 1 by \<open>5.6 \<cdot> 10^-17\<close> and rounds to 1, so the value of rank 1 is
  returned: it is below the interpolated rank and below the linearly interpolated
  quantile, and it is not the sample's smallest value of a rank at least the
  interpolated one, which is 2.
\<close>

theorem empirical_var_below_exact_rank:
  "compare_var eleven_losses (Fin float_0_1) (Fin 0) = Inr (Fin 1, Fin (- 1))
   \<and> sort eleven_losses ! 1 = 1
   \<and> 1 < real (length eleven_losses - 1) * float_0_1
   \<and> 1 < exact_linear_quantile eleven_losses float_0_1
   \<and> sort eleven_losses ! nat \<lceil>real (length eleven_losses - 1) * float_0_1\<rceil> = 2"
proof -
  have s: "sort eleven_losses = eleven_losses"
    by (simp add: eleven_losses_def)
  have n: "length eleven_losses = 11"
    by (simp add: eleven_losses_def)
  have v: "virtual_index (length eleven_losses) float_0_1 = 1"
    by (simp add: virtual_index_def n float_0_1_def round_eval)
  have f: "\<lfloor>10 * float_0_1\<rfloor> = 1" and c: "\<lceil>10 * float_0_1\<rceil> = 2"
    by (simp_all add: float_0_1_def)
  have b: "0 \<le> float_0_1" "float_0_1 \<le> 1"
    by (simp_all add: float_0_1_def)
  have e: "eleven_losses ! 1 = 1"
    by (simp add: eleven_losses_def)
  have "quantile_higher eleven_losses (Fin float_0_1) = Inr (sort eleven_losses ! 1)"
    using b v by (rule quantile_higher_at) (simp_all add: n)
  then have q: "quantile_higher eleven_losses (Fin float_0_1) = Inr 1"
    by (simp only: s e)
  have "compare_var eleven_losses (Fin float_0_1) (Fin 0) = Inr (Fin 1, Fin (- 1))"
    by (simp add: compare_var_def n q py_truediv_def fsub_def)
  moreover have "1 < exact_linear_quantile eleven_losses float_0_1"
    unfolding exact_linear_quantile_def linear_interp_def s
    using f by (simp add: eleven_losses_def float_0_1_def)
  moreover have "sort eleven_losses ! nat \<lceil>real (length eleven_losses - 1) * float_0_1\<rceil> = 2"
    unfolding s using c by (simp add: eleven_losses_def)
  moreover have "1 < real (length eleven_losses - 1) * float_0_1"
    by (simp add: eleven_losses_def float_0_1_def)
  moreover have "sort eleven_losses ! 1 = 1"
    unfolding s by (simp add: eleven_losses_def)
  ultimately show ?thesis by blast
qed

text \<open>
  C3 (amended). For a non-empty loss sample (of at most \<open>2^53\<close> values, as any array in
  memory) and a percentile strictly between 0 and 1, \<open>compare_var\<close> returns, and its
  empirical VaR \<open>v\<close> is the order statistic of the least rank \<open>k\<close> that is at least the
  interpolated rank as NumPy computes it, the float product \<open>(n - 1) * p\<close>. So \<open>v\<close> is
  a member of the sample; it is not below the quantile linearly interpolated at that
  rank, and it is the smallest sample value with that property.
\<close>

theorem empirical_var_upper_quantile:
  assumes "losses \<noteq> []" and "length losses \<le> 2 ^ 53" and "0 < p" and "p < 1"
  shows "\<exists>v rel k. compare_var losses (Fin p) simulated = Inr (Fin v, rel)
           \<and> v \<in> set losses
           \<and> k < length losses \<and> v = sort losses ! k
           \<and> virtual_index (length losses) p \<le> real k
           \<and> (\<forall>j. virtual_index (length losses) p \<le> real j \<longrightarrow> k \<le> j)
           \<and> linear_quantile losses p \<le> v
           \<and> (\<forall>y \<in> set losses. linear_quantile losses p \<le> y \<longrightarrow> v \<le> y)"
proof -
  define h where "h = virtual_index (length losses) p"
  define k where "k = nat \<lceil>h\<rceil>"
  define v where "v = sort losses ! k"
  from assms have p: "0 \<le> p" "p \<le> 1" by simp_all
  from assms(1) have n: "0 < length losses" by simp
  have h0: "0 \<le> h"
    unfolding h_def using virtual_index_bounds [OF n assms(2) p] by simp
  have kn: "k < length losses"
    unfolding k_def h_def using assms(1,2) p by (rule higher_index_bound)
  have srt: "sorted (sort losses)" by simp
  have kn': "nat \<lceil>h\<rceil> < length (sort losses)"
    using kn by (simp only: k_def length_sort)
  have q: "quantile_higher losses (Fin p) = Inr v"
    using p kn by (simp add: quantile_higher_def Let_def v_def k_def h_def)
  have "\<exists>rel. compare_var losses (Fin p) simulated = Inr (Fin v, rel)"
    using assms(1) q by (simp add: compare_var_def Let_def py_truediv_def)
  moreover have "v \<in> set losses"
  proof -
    have "v \<in> set (sort losses)" unfolding v_def using kn by (intro nth_mem) simp
    then show ?thesis by simp
  qed
  moreover have "h \<le> real k"
  proof -
    have "h \<le> of_int \<lceil>h\<rceil>" by (rule le_of_int_ceiling)
    also have "\<dots> \<le> real k" unfolding k_def by simp
    finally show ?thesis .
  qed
  moreover have "\<forall>j. h \<le> real j \<longrightarrow> k \<le> j"
    unfolding k_def by (simp add: higher_least)
  moreover have "linear_quantile losses p \<le> v"
    unfolding v_def k_def linear_quantile_def h_def [symmetric]
    by (rule higher_ge_linear [OF srt h0 kn'])
  moreover have "\<forall>y \<in> set losses. linear_quantile losses p \<le> y \<longrightarrow> v \<le> y"
  proof (intro ballI impI)
    fix y assume "y \<in> set losses" and "linear_quantile losses p \<le> y"
    then show "v \<le> y"
      unfolding v_def k_def linear_quantile_def h_def [symmetric]
      by (intro higher_least_above_linear [OF srt h0 kn']) simp_all
  qed
  ultimately show ?thesis using kn v_def unfolding h_def by blast
qed

text \<open>
  The sample of the specification: at the float 0.8 the interpolated rank is the float
  next to 3.2, and the result is the sample's value of rank 4.
\<close>

lemma empirical_var_example:
  "compare_var [-50, -20, 0, 30, 100] (Fin float_0_8) (Fin 0) = Inr (Fin 100, Fin (- 1))"
proof -
  have v: "virtual_index (length [-50, -20, 0, 30, 100 :: real]) float_0_8 = 4 * float_0_8"
    by (simp add: virtual_index_def float_0_8_def round_eval)
  have c: "nat \<lceil>4 * float_0_8\<rceil> = 4" by (simp add: float_0_8_def)
  have b: "0 \<le> float_0_8" "float_0_8 \<le> 1"
    by (simp_all add: float_0_8_def)
  have "quantile_higher [-50, -20, 0, 30, 100] (Fin float_0_8)
          = Inr (sort [-50, -20, 0, 30, 100] ! 4)"
    using b v c by (rule quantile_higher_at) simp
  then have q: "quantile_higher [-50, -20, 0, 30, 100] (Fin float_0_8) = Inr 100"
    by simp
  show ?thesis
    by (simp add: compare_var_def q py_truediv_def fsub_def)
qed

theorem empirical_var_upper_quantile_witness:
  "[-50, -20, 0, 30, 100 :: real] \<noteq> [] \<and> length [-50, -20, 0, 30, 100 :: real] \<le> 2 ^ 53
   \<and> 0 < float_0_8 \<and> float_0_8 < 1
   \<and> (\<exists>v rel k. compare_var [-50, -20, 0, 30, 100] (Fin float_0_8) (Fin 0) = Inr (Fin v, rel)
          \<and> v \<in> set [-50, -20, 0, 30, 100]
          \<and> k < length [-50, -20, 0, 30, 100 :: real]
          \<and> v = sort [-50, -20, 0, 30, 100] ! k
          \<and> virtual_index (length [-50, -20, 0, 30, 100 :: real]) float_0_8 \<le> real k
          \<and> (\<forall>j. virtual_index (length [-50, -20, 0, 30, 100 :: real]) float_0_8 \<le> real j
                 \<longrightarrow> k \<le> j)
          \<and> linear_quantile [-50, -20, 0, 30, 100] float_0_8 \<le> v
          \<and> (\<forall>y \<in> set [-50, -20, 0, 30, 100].
                 linear_quantile [-50, -20, 0, 30, 100] float_0_8 \<le> y \<longrightarrow> v \<le> y))
   \<and> compare_var [-50, -20, 0, 30, 100] (Fin float_0_8) (Fin 0) = Inr (Fin 100, Fin (- 1))"
proof -
  have ne: "[-50, -20, 0, 30, 100 :: real] \<noteq> []" by simp
  have len: "length [-50, -20, 0, 30, 100 :: real] \<le> 2 ^ 53" by simp
  have lo: "0 < float_0_8" by (simp add: float_0_8_def)
  have hi: "float_0_8 < 1" by (simp add: float_0_8_def)
  from empirical_var_upper_quantile [OF ne len lo hi, of "Fin 0"] ne len lo hi
    empirical_var_example
  show ?thesis by blast
qed

text \<open>
  Another sample where the rounding decides: with six losses at the float 0.8 the
  product \<open>5 \<cdot> 0.8\<close> is above 4 and rounds to 4, and the value of rank 4 is returned.
\<close>

lemma empirical_var_six_losses:
  "compare_var [0, 1, 2, 3, 4, 5] (Fin float_0_8) (Fin 0) = Inr (Fin 4, Fin (- 1))"
proof -
  have v: "virtual_index (length [0, 1, 2, 3, 4, 5 :: real]) float_0_8 = 4"
    by (simp add: virtual_index_def float_0_8_def round_eval)
  have b: "0 \<le> float_0_8" "float_0_8 \<le> 1"
    by (simp_all add: float_0_8_def)
  have "quantile_higher [0, 1, 2, 3, 4, 5] (Fin float_0_8) = Inr (sort [0, 1, 2, 3, 4, 5] ! 4)"
    using b v by (rule quantile_higher_at) simp_all
  then have q: "quantile_higher [0, 1, 2, 3, 4, 5] (Fin float_0_8) = Inr 4"
    by simp
  show ?thesis
    by (simp add: compare_var_def q py_truediv_def fsub_def)
qed

text \<open>
  C8 (empty sample). With no losses, \<open>compare_var\<close> returns NaN for the empirical VaR
  and for the gap, whatever the percentile and the simulated VaR are; it raises nothing.
\<close>

theorem compare_var_empty:
  "compare_var [] percentile simulated = Inr (NaN, NaN)"
  by (simp add: compare_var_def)

text \<open>
  C7 (zero reference). When the empirical VaR is zero, \<open>compare_var\<close> returns the
  infinity sentinel as relative gap; when the analytic price is zero, the option-pricing
  check returns it as relative error. Neither raises: Python's division is not reached.
\<close>

theorem zero_reference_sentinel:
  "(losses \<noteq> [] \<and> quantile_higher losses percentile = Inr 0
      \<longrightarrow> compare_var losses percentile simulated = Inr (Fin 0, PInf))
   \<and> (black_scholes_price spot strike rate dividend sigma maturity True = Inr 0
      \<longrightarrow> option_pricing_check mc_price spot strike rate dividend sigma maturity
            = Inr (0, fsub mc_price (Fin 0), PInf))"
  by (simp add: compare_var_def option_pricing_check_def)

theorem zero_reference_sentinel_witness:
  "([-50, -20, 0, 30, 100 :: real] \<noteq> []
    \<and> quantile_higher [-50, -20, 0, 30, 100] (Fin (1 / 2)) = Inr 0
    \<and> compare_var [-50, -20, 0, 30, 100] (Fin (1 / 2)) (Fin 7) = Inr (Fin 0, PInf))
   \<and> (black_scholes_price 90 100 (1 / 50) (1 / 100) (1 / 5) 0 True = Inr 0
    \<and> option_pricing_check (Fin 3) 90 100 (1 / 50) (1 / 100) (1 / 5) 0
         = Inr (0, Fin 3, PInf))"
proof -
  have v: "virtual_index (length [-50, -20, 0, 30, 100 :: real]) (1 / 2) = 2"
    by (simp add: virtual_index_def round_eval)
  have "quantile_higher [-50, -20, 0, 30, 100] (Fin (1 / 2))
          = Inr (sort [-50, -20, 0, 30, 100] ! 2)"
    using _ _ v by (rule quantile_higher_at) simp_all
  then have q: "quantile_higher [-50, -20, 0, 30, 100] (Fin (1 / 2)) = Inr 0"
    by simp
  have b: "black_scholes_price 90 100 (1 / 50) (1 / 100) (1 / 5) 0 True = Inr 0"
    by (simp add: black_scholes_price_def)
  from zero_reference_sentinel [of "[-50, -20, 0, 30, 100]" "Fin (1 / 2)" "Fin 7"
      90 100 "1 / 50" "1 / 100" "1 / 5" 0 "Fin 3"] q b
  show ?thesis by (simp add: fsub_def)
qed

section \<open>Properties of the estimator\<close>

lemma length_log_returns: "length (log_returns xs) = length xs - 1"
  by (induction xs rule: log_returns.induct) simp_all

lemma fsum_Fin: "fsum (map Fin rs) = Fin (sum_list rs)"
  by (induction rs) (simp_all add: fsum_def)

lemma dropna_Fin: "dropna (map Fin rs) = map Fin rs"
  by (induction rs) (simp_all add: dropna_def)

lemma ratios_tail:
  assumes "\<forall>x \<in> set (a # xs). 0 < x"
  shows "map flog (map2 fdiv (map Fin xs) (map Fin (butlast (a # xs)))) = map Fin (log_returns (a # xs))"
  using assms
proof (induction xs arbitrary: a)
  case Nil
  then show ?case by simp
next
  case (Cons b xs)
  then have "0 < a" "0 < b" "\<forall>x \<in> set (b # xs). 0 < x" by simp_all
  with Cons.IH [of b] show ?case by simp
qed

lemma returns_positive:
  assumes "\<forall>x \<in> set cs. 0 < x"
  shows "dropna (map flog (map2 fdiv (map Fin cs) (shift1 (map Fin cs)))) = map Fin (log_returns cs)"
proof (cases cs)
  case Nil
  then show ?thesis by (simp add: shift1_def dropna_def)
next
  case (Cons a xs)
  have "map2 fdiv (map Fin (a # xs)) (shift1 (map Fin (a # xs)))
          = NaN # map2 fdiv (map Fin xs) (map Fin (butlast (a # xs)))"
    by (simp add: shift1_def map_butlast)
  then have "map flog (map2 fdiv (map Fin (a # xs)) (shift1 (map Fin (a # xs))))
          = NaN # map Fin (log_returns (a # xs))"
    using ratios_tail [of a xs] assms Cons by simp
  then show ?thesis using Cons by (simp add: dropna_def dropna_Fin [unfolded dropna_def])
qed


lemma series_mean_Fin:
  assumes "rs \<noteq> []"
  shows "series_mean (map Fin rs) = Fin (mean rs)"
  using assms by (simp add: series_mean_def Let_def dropna_Fin fsum_Fin mean_def)

lemma sqr_Fin:
  "map (\<lambda>x. fmul (fsub (Fin m) x) (fsub (Fin m) x)) (map Fin rs)
     = map Fin (map (\<lambda>r. (r - m) ^ 2) rs)"
  by (induction rs) (simp_all add: fsub_def power2_eq_square algebra_simps)

lemma series_std_Fin:
  assumes "2 \<le> length rs"
  shows "series_std 1 (map Fin rs) = Fin (bessel_std rs)"
proof -
  from assms have ne: "rs \<noteq> []" by auto
  have d: "real (length rs - 1) \<noteq> 0" using assms by simp
  have avg: "fdiv (fsum (map Fin rs)) (Fin (real (length rs))) = Fin (mean rs)"
    using ne by (simp add: fsum_Fin mean_def)
  have cnt: "\<not> length (map Fin rs) \<le> 1" using assms by simp
  have "series_var 1 (map Fin rs)
          = fdiv (fsum (map (\<lambda>x. fmul (fsub (Fin (mean rs)) x) (fsub (Fin (mean rs)) x))
                          (map Fin rs)))
                 (Fin (real (length (map Fin rs) - 1)))"
    unfolding series_var_def Let_def dropna_Fin avg [unfolded length_map [of Fin rs, symmetric]]
    using cnt by (simp only: if_False)
  also have "\<dots> = fdiv (fsum (map Fin (map (\<lambda>r. (r - mean rs) ^ 2) rs)))
                       (Fin (real (length rs - 1)))"
    by (simp only: sqr_Fin length_map)
  also have "\<dots> = Fin ((\<Sum>r\<leftarrow>rs. (r - mean rs) ^ 2) / real (length rs - 1))"
    using d by (simp only: fsum_Fin fdiv.simps if_False)
  finally have v: "series_var 1 (map Fin rs)
          = Fin ((\<Sum>r\<leftarrow>rs. (r - mean rs) ^ 2) / real (length rs - 1))" .
  have "0 \<le> (\<Sum>r\<leftarrow>rs. (r - mean rs) ^ 2)"
    by (rule sum_list_nonneg) auto
  then have "0 \<le> (\<Sum>r\<leftarrow>rs. (r - mean rs) ^ 2) / real (length rs - 1)"
    by simp
  then show ?thesis unfolding series_std_def v bessel_std_def by simp
qed

lemma series_std_short:
  assumes "length xs \<le> 1"
  shows "series_std 1 xs = NaN"
proof -
  have "length (dropna xs) \<le> length xs" by (simp add: dropna_def)
  with assms show ?thesis by (simp add: series_std_def series_var_def Let_def)
qed

text \<open>
  C5 (annualised drift and volatility). For a history of \<open>n \<ge> 2\<close> rows with positive
  closes (the logarithm of a price ratio is defined), there are \<open>n - 1\<close> log returns
  of consecutive closes; the estimator returns their mean times 252 as drift and, from
  three rows on, their Bessel-corrected sample standard deviation times \<open>\<surd>252\<close> as
  volatility. With two rows there is a single return, the Bessel-corrected deviation is
  the undefined 0/0, and the volatility returned is the NaN sentinel.
\<close>

theorem realised_statistics_annualised:
  assumes "2 \<le> length history" and "\<forall>row \<in> set history. 0 < close row"
  shows "length (log_returns (map close history)) = length history - 1
       \<and> realised_statistics history =
           Inr (Fin (mean (log_returns (map close history)) * 252),
                if length history = 2 then NaN
                else Fin (bessel_std (log_returns (map close history)) * sqrt 252))"
proof -
  define rs where "rs = log_returns (map close history)"
  have len: "length rs = length history - 1"
    by (simp add: rs_def length_log_returns)
  from assms(2) have "\<forall>x \<in> set (map close history). 0 < x" by simp
  then have ret: "dropna (map flog (map2 fdiv (map Fin (map close history))
                     (shift1 (map Fin (map close history))))) = map Fin rs"
    unfolding rs_def by (rule returns_positive)
  have ne: "rs \<noteq> []" using len assms(1) by auto
  have mu: "fmul (series_mean (map Fin rs)) (Fin 252) = Fin (mean rs * 252)"
    using ne by (simp add: series_mean_Fin)
  have sigma: "fmul (series_std 1 (map Fin rs)) (Fin (sqrt 252))
                = (if length history = 2 then NaN else Fin (bessel_std rs * sqrt 252))"
  proof (cases "length history = 2")
    case True
    then have "length (map Fin rs) \<le> 1" using len by simp
    then have "series_std 1 (map Fin rs) = NaN" by (rule series_std_short)
    with True show ?thesis by simp
  next
    case False
    with assms(1) len have "2 \<le> length rs" by simp
    then have "series_std 1 (map Fin rs) = Fin (bessel_std rs)" by (rule series_std_Fin)
    with False show ?thesis by simp
  qed
  have "realised_statistics history
          = Inr (fmul (series_mean (map Fin rs)) (Fin 252),
                 fmul (series_std 1 (map Fin rs)) (Fin (sqrt 252)))"
    using ret by (simp add: realised_statistics_def Let_def comp_def)
  with mu sigma len show ?thesis by (simp add: rs_def)
qed

theorem realised_statistics_annualised_witness:
  "2 \<le> length [flat_bar 100, flat_bar 110, flat_bar 121]
   \<and> 0 < close (flat_bar 100) \<and> 0 < close (flat_bar 110) \<and> 0 < close (flat_bar 121)
   \<and> realised_statistics [flat_bar 100, flat_bar 110, flat_bar 121]
       = Inr (Fin (mean [ln (11 / 10), ln (11 / 10)] * 252),
              Fin (bessel_std [ln (11 / 10), ln (11 / 10)] * sqrt 252))
   \<and> realised_statistics [flat_bar 100, flat_bar 110] = Inr (Fin (ln (11 / 10) * 252), NaN)"
proof -
  have c: "0 < close (flat_bar 100)" "0 < close (flat_bar 110)" "0 < close (flat_bar 121)"
    by (simp_all add: flat_bar_def)
  have three: "2 \<le> length [flat_bar 100, flat_bar 110, flat_bar 121]"
    and two: "2 \<le> length [flat_bar 100, flat_bar 110]"
    by simp_all
  from c have p3: "\<forall>row \<in> set [flat_bar 100, flat_bar 110, flat_bar 121]. 0 < close row"
    and p2: "\<forall>row \<in> set [flat_bar 100, flat_bar 110]. 0 < close row"
    by simp_all
  have r3: "log_returns (map close [flat_bar 100, flat_bar 110, flat_bar 121])
              = [ln (11 / 10), ln (11 / 10)]"
    by (simp add: flat_bar_def)
  have r2: "log_returns (map close [flat_bar 100, flat_bar 110]) = [ln (11 / 10)]"
    by (simp add: flat_bar_def)
  from realised_statistics_annualised [OF three p3] r3
  have "realised_statistics [flat_bar 100, flat_bar 110, flat_bar 121]
       = Inr (Fin (mean [ln (11 / 10), ln (11 / 10)] * 252),
              Fin (bessel_std [ln (11 / 10), ln (11 / 10)] * sqrt 252))"
    by simp
  moreover from realised_statistics_annualised [OF two p2] r2
  have "realised_statistics [flat_bar 100, flat_bar 110] = Inr (Fin (ln (11 / 10) * 252), NaN)"
    by (simp add: mean_def)
  ultimately show ?thesis using c three by blast
qed

text \<open>
  C6 as stated fails: a history of a single row is not rejected. The estimator returns
  the pair (NaN, NaN).
\<close>

theorem realised_statistics_single_row:
  "length [flat_bar 100] < 2 \<and> realised_statistics [flat_bar 100] = Inr (NaN, NaN)"
  by (simp add: realised_statistics_def Let_def shift1_def dropna_def series_mean_def
      series_std_def series_var_def fsum_def)

text \<open>
  C6 (amended). For a price history of fewer than two rows the estimator raises nothing:
  there is no log return, and drift and volatility are both NaN.
\<close>

theorem realised_statistics_short:
  assumes "length history < 2"
  shows "realised_statistics history = Inr (NaN, NaN)"
proof -
  have "history = [] \<or> (\<exists>row. history = [row])"
    using assms by (cases history) (auto simp: less_Suc_eq_le)
  then show ?thesis
    by (auto simp: realised_statistics_def Let_def shift1_def dropna_def series_mean_def
        series_std_def series_var_def fsum_def)
qed

theorem realised_statistics_short_witness:
  "length ([] :: bar list) < 2 \<and> realised_statistics [] = Inr (NaN, NaN)"
  using realised_statistics_short [of "[]"] by simp

section \<open>Properties of the adapter\<close>

lemma run_risk_sim_failure:
  assumes "path_exists w issued binary"
    and "subprocess_run w issued (build_cli w binary command args) = Inr result"
    and "returncode result \<noteq> 0"
  shows "run_risk_sim w binary command args issued =
           (Inl (RuntimeError (''risk_sim failed ('' @ command @ ''): ''
                   @ (if stderr result \<noteq> [] then stderr result else stdout result))),
            issued @ [build_cli w binary command args])"
  using assms by (simp add: run_risk_sim_def Let_def)



text \<open>
  C10 (fallback to standard output). When moreover the captured standard-error text is
  empty, the message of the \<open>RuntimeError\<close> ends with the captured standard output.
\<close>

theorem empty_stderr_falls_back:
  assumes "path_exists w issued binary"
    and "subprocess_run w issued (build_cli w binary command args) = Inr result"
    and "returncode result \<noteq> 0"
    and "stderr result = []"
  shows "fst (run_risk_sim w binary command args issued)
           = Inl (RuntimeError (''risk_sim failed ('' @ command @ ''): '' @ stdout result))
       \<and> sublist (stdout result) (''risk_sim failed ('' @ command @ ''): '' @ stdout result)"
proof -
  have "sublist (stdout result) (''risk_sim failed ('' @ command @ ''): '' @ stdout result)"
    by (metis append.assoc sublist_appendI append_Nil2)
  with run_risk_sim_failure [OF assms(1-3)] assms(4) show ?thesis by simp
qed

theorem empty_stderr_falls_back_witness:
  "path_exists (engine_failing 2 ''usage: risk_sim'' []) [] ''build/risk_sim''
   \<and> subprocess_run (engine_failing 2 ''usage: risk_sim'' []) []
        (build_cli (engine_failing 2 ''usage: risk_sim'' []) ''build/risk_sim'' ''var'' [])
        = Inr \<lparr>returncode = 2, stdout = ''usage: risk_sim'', stderr = []\<rparr>
   \<and> returncode \<lparr>returncode = 2, stdout = ''usage: risk_sim'', stderr = []\<rparr> \<noteq> 0
   \<and> stderr \<lparr>returncode = 2, stdout = ''usage: risk_sim'', stderr = []\<rparr> = []
   \<and> fst (run_risk_sim (engine_failing 2 ''usage: risk_sim'' []) ''build/risk_sim'' ''var'' [] [])
        = Inl (RuntimeError ''risk_sim failed (var): usage: risk_sim'')
   \<and> sublist ''usage: risk_sim'' ''risk_sim failed (var): usage: risk_sim''"
proof -
  let ?w = "engine_failing 2 ''usage: risk_sim'' []"
  let ?r = "\<lparr>returncode = 2, stdout = ''usage: risk_sim'', stderr = []\<rparr>"
  have a: "path_exists ?w [] ''build/risk_sim''" by (simp add: engine_failing_def)
  have b: "subprocess_run ?w [] (build_cli ?w ''build/risk_sim'' ''var'' []) = Inr ?r"
    by (simp add: engine_failing_def)
  have c: "returncode ?r \<noteq> 0" by simp
  have d: "stderr ?r = []" by simp
  from empty_stderr_falls_back [OF a b c d] a b c d show ?thesis by simp
qed

section \<open>Properties of the convergence sweep\<close>

lemma map_of_dict_set_same: "map_of (dict_set d k v) k = Some v"
  by (induction d) auto

lemma map_of_dict_set_other: "k' \<noteq> k \<Longrightarrow> map_of (dict_set d k v) k' = map_of d k'"
  by (induction d) auto

lemma sweep_payload_paths:
  "map_of (sweep_payload base base_paths i) ''paths'' = Some (PyInt (base_paths * (int i + 1)))"
  by (simp add: sweep_payload_def Let_def map_of_dict_set_other map_of_dict_set_same)

lemma sweep_payload_seed:
  "map_of (sweep_payload base base_paths i) ''seed'' = Some (PyInt (100 + int i))"
  by (simp add: sweep_payload_def Let_def map_of_dict_set_same)

lemma build_cli_flag:
  assumes "map_of args key = Some value"
  shows "''--'' @ key @ ''='' @ py_str w value \<in> set (build_cli w binary command args)"
proof -
  from assms have "(key, value) \<in> set args" by (rule map_of_SomeD)
  then show ?thesis by (force simp: build_cli_def)
qed

lemma run_risk_sim_snd:
  "snd (run_risk_sim w binary command args issued)
     = issued @ (if path_exists w issued binary
                 then [build_cli w binary command args] else [])"
  by (simp add: run_risk_sim_def Let_def split: sum.splits option.splits)

lemma run_risk_sim_ok_exists:
  assumes "fst (run_risk_sim w binary command args issued) = Inr response"
  shows "path_exists w issued binary"
proof (rule ccontr)
  assume "\<not> path_exists w issued binary"
  then have "\<exists>e. fst (run_risk_sim w binary command args issued) = Inl e"
    by (simp add: run_risk_sim_def)
  with assms show False by auto
qed

lemma sweep_iteration_cases:
  obtains e s where
      "run_risk_sim w binary ''option'' (sweep_payload base base_paths i) issued = (Inl e, s)"
      "sweep_iteration w binary base base_paths i issued = (Inl e, s)"
  | response s e where
      "run_risk_sim w binary ''option'' (sweep_payload base base_paths i) issued
         = (Inr response, s)"
      "read_point w (base_paths * (int i + 1)) response = Inl e"
      "sweep_iteration w binary base base_paths i issued = (Inl e, s)"
  | response s point where
      "run_risk_sim w binary ''option'' (sweep_payload base base_paths i) issued
         = (Inr response, s)"
      "read_point w (base_paths * (int i + 1)) response = Inr point"
      "sweep_iteration w binary base base_paths i issued = (Inr point, s)"
proof -
  obtain r s where
    run: "run_risk_sim w binary ''option'' (sweep_payload base base_paths i) issued = (r, s)"
    by (cases "run_risk_sim w binary ''option'' (sweep_payload base base_paths i) issued")
  show thesis
  proof (cases r)
    case (Inl e)
    with run that(1) show ?thesis by (simp add: sweep_iteration_def)
  next
    case (Inr response)
    show ?thesis
    proof (cases "read_point w (base_paths * (int i + 1)) response")
      case (Inl e)
      with run Inr that(2) show ?thesis by (simp add: sweep_iteration_def)
    next
      case point: (Inr point)
      with run Inr that(3) show ?thesis by (simp add: sweep_iteration_def)
    qed
  qed
qed

lemma sweep_iteration_issued:
  "snd (sweep_iteration w binary base base_paths i issued)
     = issued @ (if path_exists w issued binary
                 then [sweep_cli w binary base base_paths i] else [])"
proof -
  have "snd (sweep_iteration w binary base base_paths i issued)
          = snd (run_risk_sim w binary ''option'' (sweep_payload base base_paths i) issued)"
    by (rule sweep_iteration_cases [of w binary base base_paths i issued]) simp_all
  then show ?thesis by (simp only: run_risk_sim_snd sweep_cli_def)
qed

lemma sweep_iteration_ok_issued:
  assumes "fst (sweep_iteration w binary base base_paths i issued) = Inr point"
  shows "sweep_iteration w binary base base_paths i issued
           = (Inr point, issued @ [sweep_cli w binary base base_paths i])"
proof -
  have "\<exists>response.
          fst (run_risk_sim w binary ''option'' (sweep_payload base base_paths i) issued)
            = Inr response"
    using assms by (rule_tac sweep_iteration_cases [of w binary base base_paths i issued]) simp_all
  then have "path_exists w issued binary"
    by (auto dest: run_risk_sim_ok_exists)
  then have "snd (sweep_iteration w binary base base_paths i issued)
               = issued @ [sweep_cli w binary base base_paths i]"
    by (simp add: sweep_iteration_issued)
  with assms show ?thesis by (simp add: prod_eq_iff)
qed

lemma read_point_paths:
  assumes "read_point w paths response = Inr point"
  shows "point_paths point = paths"
  using assms by (auto simp: read_point_def split: sum.splits)

lemma sweep_iteration_paths:
  assumes "fst (sweep_iteration w binary base base_paths i issued) = Inr point"
  shows "point_paths point = base_paths * (int i + 1)"
  using assms
  by (rule_tac sweep_iteration_cases [of w binary base base_paths i issued])
    (auto dest: read_point_paths)

text \<open>
  The loop on any list of steps: when every iteration succeeds in the situation the
  iterations before it leave, the loop sends every request and returns every point.
\<close>

lemma sweep_loop_complete:
  assumes "\<forall>t < length steps. \<exists>point.
             fst (sweep_iteration w binary base base_paths (steps ! t)
                    (issued @ map (sweep_cli w binary base base_paths) (take t steps)))
               = Inr point"
  shows "\<exists>points.
           sweep_loop w binary base base_paths steps issued
             = (Inr points, issued @ map (sweep_cli w binary base base_paths) steps)
         \<and> length points = length steps
         \<and> (\<forall>t < length steps.
               fst (sweep_iteration w binary base base_paths (steps ! t)
                      (issued @ map (sweep_cli w binary base base_paths) (take t steps)))
                 = Inr (points ! t))"
  using assms
proof (induction steps arbitrary: issued)
  case Nil
  show ?case by simp
next
  case (Cons i rest)
  let ?cli = "sweep_cli w binary base base_paths"
  let ?iter = "sweep_iteration w binary base base_paths"
  have "0 < length (i # rest)" by simp
  from Cons.prems [rule_format, OF this] obtain point where
    "fst (?iter ((i # rest) ! 0) (issued @ map ?cli (take 0 (i # rest)))) = Inr point" ..
  then have first: "fst (?iter i issued) = Inr point" by simp
  then have run: "?iter i issued = (Inr point, issued @ [?cli i])"
    by (rule sweep_iteration_ok_issued)
  have later: "\<forall>t < length rest. \<exists>point.
                 fst (?iter (rest ! t) ((issued @ [?cli i]) @ map ?cli (take t rest))) = Inr point"
  proof (intro allI impI)
    fix t assume "t < length rest"
    then have "Suc t < length (i # rest)" by simp
    from Cons.prems [rule_format, OF this] obtain point where
      "fst (?iter ((i # rest) ! Suc t) (issued @ map ?cli (take (Suc t) (i # rest)))) = Inr point" ..
    then have "fst (?iter (rest ! t) ((issued @ [?cli i]) @ map ?cli (take t rest))) = Inr point"
      by simp
    then show "\<exists>point. fst (?iter (rest ! t) ((issued @ [?cli i]) @ map ?cli (take t rest)))
                 = Inr point" ..
  qed
  from Cons.IH [OF later] obtain points where
    rec: "sweep_loop w binary base base_paths rest (issued @ [?cli i])
            = (Inr points, (issued @ [?cli i]) @ map ?cli rest)"
    and len: "length points = length rest"
    and each: "\<forall>t < length rest.
                 fst (?iter (rest ! t) ((issued @ [?cli i]) @ map ?cli (take t rest)))
                   = Inr (points ! t)"
    by (elim exE conjE)
  have a: "sweep_loop w binary base base_paths (i # rest) issued
          = (Inr (point # points), issued @ map ?cli (i # rest))"
    by (simp only: sweep_loop.simps run rec prod.case sum.case map_append list.map append_assoc
        append_Cons append_Nil)
  have b: "length (point # points) = length (i # rest)"
    using len by simp
  have c: "\<forall>t < length (i # rest).
                   fst (?iter ((i # rest) ! t) (issued @ map ?cli (take t (i # rest))))
                     = Inr ((point # points) ! t)"
  proof (intro allI impI)
    fix t assume t: "t < length (i # rest)"
    show "fst (?iter ((i # rest) ! t) (issued @ map ?cli (take t (i # rest))))
            = Inr ((point # points) ! t)"
    proof (cases t)
      case 0
      with first show ?thesis by simp
    next
      case (Suc t')
      with t have "t' < length rest" by simp
      from each [rule_format, OF this]
      have "fst (?iter (rest ! t') ((issued @ [?cli i]) @ map ?cli (take t' rest)))
              = Inr (points ! t')" .
      with Suc show ?thesis by simp
    qed
  qed
  from a b c show ?case by (intro exI [of _ "point # points"] conjI)
qed

text \<open>
  When an iteration fails after the ones before it succeeded, the loop ends there: it
  returns that error, and nothing is sent after the failing iteration.
\<close>

lemma sweep_loop_first_failure:
  assumes "j < length steps"
    and "\<forall>t < j. \<exists>point.
           fst (sweep_iteration w binary base base_paths (steps ! t)
                  (issued @ map (sweep_cli w binary base base_paths) (take t steps)))
             = Inr point"
    and "fst (sweep_iteration w binary base base_paths (steps ! j)
                (issued @ map (sweep_cli w binary base base_paths) (take j steps)))
           = Inl e"
  shows "sweep_loop w binary base base_paths steps issued
           = (Inl e,
              snd (sweep_iteration w binary base base_paths (steps ! j)
                     (issued @ map (sweep_cli w binary base base_paths) (take j steps))))"
  using assms
proof (induction steps arbitrary: issued j)
  case Nil
  then show ?case by simp
next
  case (Cons i rest)
  let ?cli = "sweep_cli w binary base base_paths"
  let ?iter = "sweep_iteration w binary base base_paths"
  show ?case
  proof (cases j)
    case 0
    with Cons.prems(3) have "fst (?iter i issued) = Inl e" by simp
    then obtain s where run: "?iter i issued = (Inl e, s)"
      by (cases "?iter i issued") simp
    have "sweep_loop w binary base base_paths (i # rest) issued = (Inl e, s)"
      by (simp only: sweep_loop.simps run prod.case sum.case)
    with 0 run show ?thesis by simp
  next
    case (Suc j')
    then have "0 < j" by simp
    from Cons.prems(2) [rule_format, OF this] obtain point where
      "fst (?iter ((i # rest) ! 0) (issued @ map ?cli (take 0 (i # rest)))) = Inr point" ..
    then have "fst (?iter i issued) = Inr point" by simp
    then have run: "?iter i issued = (Inr point, issued @ [?cli i])"
      by (rule sweep_iteration_ok_issued)
    from Cons.prems(1) Suc have j': "j' < length rest" by simp
    have before: "\<forall>t < j'. \<exists>point.
                    fst (?iter (rest ! t) ((issued @ [?cli i]) @ map ?cli (take t rest)))
                      = Inr point"
    proof (intro allI impI)
      fix t assume "t < j'"
      then have "Suc t < j" using Suc by simp
      from Cons.prems(2) [rule_format, OF this] obtain point where
        "fst (?iter ((i # rest) ! Suc t) (issued @ map ?cli (take (Suc t) (i # rest))))
           = Inr point" ..
      then have "fst (?iter (rest ! t) ((issued @ [?cli i]) @ map ?cli (take t rest)))
                   = Inr point"
        by simp
      then show "\<exists>point. fst (?iter (rest ! t) ((issued @ [?cli i]) @ map ?cli (take t rest)))
                   = Inr point" ..
    qed
    from Cons.prems(3) Suc
    have fails: "fst (?iter (rest ! j') ((issued @ [?cli i]) @ map ?cli (take j' rest))) = Inl e"
      by simp
    from Cons.IH [OF j' before fails]
    have rec: "sweep_loop w binary base base_paths rest (issued @ [?cli i])
            = (Inl e, snd (?iter (rest ! j') ((issued @ [?cli i]) @ map ?cli (take j' rest))))" .
    have "sweep_loop w binary base base_paths (i # rest) issued
            = (Inl e, snd (?iter (rest ! j') ((issued @ [?cli i]) @ map ?cli (take j' rest))))"
      by (simp only: sweep_loop.simps run rec prod.case sum.case)
    with Suc show ?thesis by simp
  qed
qed

lemma upt_step:
  assumes "t < n"
  shows "[0..<n] ! t = t" and "take t [0..<n] = [0..<t]"
  using assms by (simp_all add: take_upt)

text \<open>
  C4 (amended). A sweep of \<open>N > 0\<close> iterations is determined by its iterations, each
  taken after the requests of all the iterations before it. When every iteration
  succeeds, all \<open>N\<close> requests are issued, in increasing order of \<open>i\<close> from 0, and the
  \<open>N\<close> points are returned, the one of iteration \<open>i\<close> with the sample count
  \<open>P (i + 1)\<close>. When iteration \<open>j\<close> is the first to fail, the sweep ends with its
  error: the requests of the iterations \<open>0, ..., j - 1\<close> are issued, then the one of
  iteration \<open>j\<close> unless the binary is missing by then, and nothing after it. The
  request of iteration \<open>i\<close> carries the sample count \<open>P (i + 1)\<close> and the seed
  \<open>100 + i\<close>, both as entries of the request and as flags of the command line, whatever
  seed the base request carries.
\<close>

theorem sweep_requests:
  assumes "0 < stress_runs"
  shows "((\<forall>i < nat stress_runs. \<exists>point.
             iteration_outcome w binary base base_paths issued i = Inr point)
          \<longrightarrow> (\<exists>points.
                 convergence_sweep w binary base base_paths stress_runs issued
                   = (Inr points,
                      issued_before w binary base base_paths issued (nat stress_runs))
               \<and> length points = nat stress_runs
               \<and> (\<forall>i < nat stress_runs.
                     iteration_outcome w binary base base_paths issued i = Inr (points ! i)
                   \<and> point_paths (points ! i) = base_paths * (int i + 1))))
       \<and> (\<forall>j e. j < nat stress_runs
               \<and> (\<forall>i < j. \<exists>point.
                     iteration_outcome w binary base base_paths issued i = Inr point)
               \<and> iteration_outcome w binary base base_paths issued j = Inl e
             \<longrightarrow> convergence_sweep w binary base base_paths stress_runs issued
                   = (Inl e,
                      issued_before w binary base base_paths issued j
                        @ (if path_exists w (issued_before w binary base base_paths issued j)
                                binary
                           then [sweep_cli w binary base base_paths j] else [])))
       \<and> (\<forall>i. map_of (sweep_payload base base_paths i) ''paths''
                  = Some (PyInt (base_paths * (int i + 1)))
              \<and> map_of (sweep_payload base base_paths i) ''seed'' = Some (PyInt (100 + int i))
              \<and> ''--paths='' @ str_int (base_paths * (int i + 1))
                  \<in> set (sweep_cli w binary base base_paths i)
              \<and> ''--seed='' @ str_int (100 + int i)
                  \<in> set (sweep_cli w binary base base_paths i))"
proof -
  let ?cli = "sweep_cli w binary base base_paths"
  let ?iter = "sweep_iteration w binary base base_paths"
  let ?out = "iteration_outcome w binary base base_paths issued"
  let ?n = "nat stress_runs"
  from assms have conv: "convergence_sweep w binary base base_paths stress_runs issued
                          = sweep_loop w binary base base_paths [0..<?n] issued"
    by (simp add: convergence_sweep_def)
  have out: "?out t = fst (?iter ([0..<?n] ! t) (issued @ map ?cli (take t [0..<?n])))"
    if "t < ?n" for t
    by (simp only: iteration_outcome_def issued_before_def upt_step [OF that])
  have complete: "\<exists>points.
            convergence_sweep w binary base base_paths stress_runs issued
              = (Inr points, issued_before w binary base base_paths issued ?n)
          \<and> length points = ?n
          \<and> (\<forall>i < ?n. ?out i = Inr (points ! i)
                        \<and> point_paths (points ! i) = base_paths * (int i + 1))"
    if ok: "\<forall>i < ?n. \<exists>point. ?out i = Inr point"
  proof -
    have "\<forall>t < length [0..<?n]. \<exists>point.
            fst (?iter ([0..<?n] ! t) (issued @ map ?cli (take t [0..<?n]))) = Inr point"
    proof (intro allI impI)
      fix t assume "t < length [0..<?n]"
      then have t: "t < ?n" by simp
      from ok [rule_format, OF t] obtain point where "?out t = Inr point" ..
      then have "fst (?iter ([0..<?n] ! t) (issued @ map ?cli (take t [0..<?n]))) = Inr point"
        by (simp only: out [OF t])
      then show "\<exists>point. fst (?iter ([0..<?n] ! t) (issued @ map ?cli (take t [0..<?n])))
                   = Inr point" ..
    qed
    from sweep_loop_complete [OF this] obtain points where
      run: "sweep_loop w binary base base_paths [0..<?n] issued
              = (Inr points, issued @ map ?cli [0..<?n])"
      and len: "length points = length [0..<?n]"
      and each: "\<forall>t < length [0..<?n].
                   fst (?iter ([0..<?n] ! t) (issued @ map ?cli (take t [0..<?n])))
                     = Inr (points ! t)"
      by (elim exE conjE)
    have a: "convergence_sweep w binary base base_paths stress_runs issued
               = (Inr points, issued_before w binary base base_paths issued ?n)"
      by (simp only: conv run issued_before_def)
    have b: "length points = ?n" using len by simp
    have c: "\<forall>i < ?n. ?out i = Inr (points ! i)
                        \<and> point_paths (points ! i) = base_paths * (int i + 1)"
    proof (intro allI impI)
      fix i assume i: "i < ?n"
      then have "i < length [0..<?n]" by simp
      from each [rule_format, OF this]
      have o: "?out i = Inr (points ! i)" by (simp only: out [OF i])
      then have "fst (?iter i (issued_before w binary base base_paths issued i))
                   = Inr (points ! i)"
        by (simp only: iteration_outcome_def)
      then have "point_paths (points ! i) = base_paths * (int i + 1)"
        by (rule sweep_iteration_paths)
      with o show "?out i = Inr (points ! i)
                     \<and> point_paths (points ! i) = base_paths * (int i + 1)" ..
    qed
    from a b c show ?thesis by (intro exI [of _ points] conjI)
  qed
  have stops: "convergence_sweep w binary base base_paths stress_runs issued
            = (Inl e,
               issued_before w binary base base_paths issued j
                 @ (if path_exists w (issued_before w binary base base_paths issued j) binary
                    then [?cli j] else []))"
    if h: "j < ?n \<and> (\<forall>i < j. \<exists>point. ?out i = Inr point) \<and> ?out j = Inl e" for j e
  proof -
    from h have j: "j < ?n" by (rule conjunct1)
    from h have ok: "\<forall>i < j. \<exists>point. ?out i = Inr point"
      by (rule conjunct2 [THEN conjunct1])
    from h have bad: "?out j = Inl e"
      by (rule conjunct2 [THEN conjunct2])
    from j have jl: "j < length [0..<?n]" by simp
    have before: "\<forall>t < j. \<exists>point.
                    fst (?iter ([0..<?n] ! t) (issued @ map ?cli (take t [0..<?n]))) = Inr point"
    proof (intro allI impI)
      fix t assume tj: "t < j"
      with j have t: "t < ?n" by simp
      from ok [rule_format, OF tj] obtain point where "?out t = Inr point" ..
      then have "fst (?iter ([0..<?n] ! t) (issued @ map ?cli (take t [0..<?n]))) = Inr point"
        by (simp only: out [OF t])
      then show "\<exists>point. fst (?iter ([0..<?n] ! t) (issued @ map ?cli (take t [0..<?n])))
                   = Inr point" ..
    qed
    from bad have fails: "fst (?iter ([0..<?n] ! j) (issued @ map ?cli (take j [0..<?n]))) = Inl e"
      by (simp only: out [OF j])
    from sweep_loop_first_failure [OF jl before fails]
    have "sweep_loop w binary base base_paths [0..<?n] issued
            = (Inl e, snd (?iter ([0..<?n] ! j) (issued @ map ?cli (take j [0..<?n]))))" .
    then have "sweep_loop w binary base base_paths [0..<?n] issued
            = (Inl e, snd (?iter j (issued_before w binary base base_paths issued j)))"
      by (simp only: upt_step [OF j] issued_before_def)
    then show ?thesis
      by (simp only: conv sweep_iteration_issued)
  qed
  have carried: "map_of (sweep_payload base base_paths i) ''paths''
                  = Some (PyInt (base_paths * (int i + 1)))
              \<and> map_of (sweep_payload base base_paths i) ''seed'' = Some (PyInt (100 + int i))
              \<and> ''--paths='' @ str_int (base_paths * (int i + 1)) \<in> set (?cli i)
              \<and> ''--seed='' @ str_int (100 + int i) \<in> set (?cli i)" for i
  proof (intro conjI)
    show "map_of (sweep_payload base base_paths i) ''paths''
            = Some (PyInt (base_paths * (int i + 1)))"
      by (rule sweep_payload_paths)
    show "map_of (sweep_payload base base_paths i) ''seed'' = Some (PyInt (100 + int i))"
      by (rule sweep_payload_seed)
    show "''--paths='' @ str_int (base_paths * (int i + 1)) \<in> set (?cli i)"
      unfolding sweep_cli_def using build_cli_flag [OF sweep_payload_paths] by simp
    show "''--seed='' @ str_int (100 + int i) \<in> set (?cli i)"
      unfolding sweep_cli_def using build_cli_flag [OF sweep_payload_seed] by simp
  qed
  have one: "(\<forall>i < ?n. \<exists>point. ?out i = Inr point)
          \<longrightarrow> (\<exists>points.
                 convergence_sweep w binary base base_paths stress_runs issued
                   = (Inr points, issued_before w binary base base_paths issued ?n)
               \<and> length points = ?n
               \<and> (\<forall>i < ?n. ?out i = Inr (points ! i)
                             \<and> point_paths (points ! i) = base_paths * (int i + 1)))"
    by (rule impI) (rule complete)
  have two: "\<forall>j e. j < ?n \<and> (\<forall>i < j. \<exists>point. ?out i = Inr point) \<and> ?out j = Inl e
             \<longrightarrow> convergence_sweep w binary base base_paths stress_runs issued
                   = (Inl e,
                      issued_before w binary base base_paths issued j
                        @ (if path_exists w (issued_before w binary base base_paths issued j)
                                binary
                           then [?cli j] else []))"
    by (intro allI impI) (rule stops)
  have three: "\<forall>i. map_of (sweep_payload base base_paths i) ''paths''
                  = Some (PyInt (base_paths * (int i + 1)))
              \<and> map_of (sweep_payload base base_paths i) ''seed'' = Some (PyInt (100 + int i))
              \<and> ''--paths='' @ str_int (base_paths * (int i + 1)) \<in> set (?cli i)
              \<and> ''--seed='' @ str_int (100 + int i) \<in> set (?cli i)"
    by (rule allI) (rule carried)
  show ?thesis by (rule conjI [OF one conjI [OF two three]])
qed

text \<open>
  The sweep of the specification's example: three iterations from 1000 paths, first
  against an engine that always succeeds, then against one that fails at its second
  invocation. The requests carry the sample counts 1000, 2000, 3000 and the seeds 100,
  101, 102, in that order, although the base request carries seed 42; the failing
  engine is sent the first two and the sweep ends with its error.
\<close>

lemma str_nat_numeral:
  "str_nat (numeral k) =
     (if numeral k < (10::nat) then [''0123456789'' ! numeral k]
      else str_nat (numeral k div 10) @ [''0123456789'' ! (numeral k mod 10)])"
  by (rule str_nat.simps)

lemma str_nat_one: "str_nat (Suc 0) = ''1''"
  by (simp add: str_nat.simps [of "Suc 0"])

lemma engine_ok_fields:
  "path_exists engine_ok issued path"
  "subprocess_run engine_ok issued cli = Inr \<lparr>returncode = 0, stdout = ''{}'', stderr = []\<rparr>"
  "json_loads engine_ok text = Some (JObj [(''result'', JObj [(''price'', JNum (Fin 1))])])"
  "float_repr engine_ok x = ''0.0''"
  by (simp_all add: engine_ok_def)

lemma engine_failing_after_fields:
  "path_exists (engine_failing_after n) issued path"
  "subprocess_run (engine_failing_after n) issued cli =
     (if length issued < n then Inr \<lparr>returncode = 0, stdout = ''{}'', stderr = []\<rparr>
      else Inr \<lparr>returncode = 1, stdout = [], stderr = ''boom''\<rparr>)"
  "json_loads (engine_failing_after n) text
     = Some (JObj [(''result'', JObj [(''price'', JNum (Fin 1))])])"
  "float_repr (engine_failing_after n) x = ''0.0''"
  by (simp_all add: engine_failing_after_def)

lemma engine_ok_outcome:
  "iteration_outcome engine_ok binary base base_paths issued i
     = Inr \<lparr>point_paths = base_paths * (int i + 1), point_price = Fin 1, point_stderr = Fin 0\<rparr>"
  by (simp add: iteration_outcome_def sweep_iteration_def run_risk_sim_def read_point_def
      engine_ok_fields Let_def)

lemma engine_failing_after_outcome:
  "iteration_outcome (engine_failing_after n) binary base base_paths issued i
     = (if length issued + i < n
        then Inr \<lparr>point_paths = base_paths * (int i + 1), point_price = Fin 1,
                   point_stderr = Fin 0\<rparr>
        else Inl (RuntimeError ''risk_sim failed (option): boom''))"
  by (simp add: iteration_outcome_def issued_before_def sweep_iteration_def run_risk_sim_def
      read_point_def engine_failing_after_fields Let_def)

lemma example_clis:
  assumes "\<And>x. float_repr w x = ''0.0''"
  shows "sweep_cli w ''build/risk_sim'' example_base 1000 0 = example_cli ''1000'' ''100''"
    and "sweep_cli w ''build/risk_sim'' example_base 1000 (Suc 0) = example_cli ''2000'' ''101''"
    and "sweep_cli w ''build/risk_sim'' example_base 1000 2 = example_cli ''3000'' ''102''"
proof -
  have cli: "sweep_cli w ''build/risk_sim'' example_base 1000 i
               = example_cli (str_int (1000 * (int i + 1))) (str_int (100 + int i))" for i
    by (simp add: sweep_cli_def build_cli_def example_cli_def sweep_payload_def
        example_base_def option_payload_def str_int_def str_nat_numeral assms)
  from cli [of 0]
  show "sweep_cli w ''build/risk_sim'' example_base 1000 0 = example_cli ''1000'' ''100''"
    by (simp add: str_int_def str_nat_numeral str_nat_one)
  from cli [of "Suc 0"]
  show "sweep_cli w ''build/risk_sim'' example_base 1000 (Suc 0) = example_cli ''2000'' ''101''"
    by (simp add: str_int_def str_nat_numeral str_nat_one)
  from cli [of 2]
  show "sweep_cli w ''build/risk_sim'' example_base 1000 2 = example_cli ''3000'' ''102''"
    by (simp add: str_int_def str_nat_numeral str_nat_one)
qed

lemma example_issued:
  assumes "\<And>x. float_repr w x = ''0.0''"
  shows "issued_before w ''build/risk_sim'' example_base 1000 [] 2
           = [example_cli ''1000'' ''100'', example_cli ''2000'' ''101'']"
    and "issued_before w ''build/risk_sim'' example_base 1000 [] 3
           = [example_cli ''1000'' ''100'', example_cli ''2000'' ''101'',
              example_cli ''3000'' ''102'']"
proof -
  have two: "[0..<2] = [0, 1]" and three: "[0..<3] = [0, 1, 2]"
    by (simp_all add: upt_rec)
  note clis = example_clis [OF assms]
  show "issued_before w ''build/risk_sim'' example_base 1000 [] 2
          = [example_cli ''1000'' ''100'', example_cli ''2000'' ''101'']"
    unfolding issued_before_def two by (simp add: clis)
  show "issued_before w ''build/risk_sim'' example_base 1000 [] 3
          = [example_cli ''1000'' ''100'', example_cli ''2000'' ''101'',
             example_cli ''3000'' ''102'']"
    unfolding issued_before_def three by (simp add: clis)
qed

lemma three_points:
  assumes "length xs = 3"
  shows "xs = [xs ! 0, xs ! 1, xs ! 2]"
proof -
  from assms obtain a b c where "xs = [a, b, c]"
    by (auto simp: length_Suc_conv numeral_3_eq_3)
  then show ?thesis by simp
qed

theorem sweep_requests_witness:
  "(0::int) < 3
   \<and> iteration_outcome engine_ok ''build/risk_sim'' example_base 1000 [] 0
       = Inr \<lparr>point_paths = 1000, point_price = Fin 1, point_stderr = Fin 0\<rparr>
   \<and> iteration_outcome engine_ok ''build/risk_sim'' example_base 1000 [] 1
       = Inr \<lparr>point_paths = 2000, point_price = Fin 1, point_stderr = Fin 0\<rparr>
   \<and> iteration_outcome engine_ok ''build/risk_sim'' example_base 1000 [] 2
       = Inr \<lparr>point_paths = 3000, point_price = Fin 1, point_stderr = Fin 0\<rparr>
   \<and> convergence_sweep engine_ok ''build/risk_sim'' example_base 1000 3 []
       = (Inr [\<lparr>point_paths = 1000, point_price = Fin 1, point_stderr = Fin 0\<rparr>,
               \<lparr>point_paths = 2000, point_price = Fin 1, point_stderr = Fin 0\<rparr>,
               \<lparr>point_paths = 3000, point_price = Fin 1, point_stderr = Fin 0\<rparr>],
          [example_cli ''1000'' ''100'', example_cli ''2000'' ''101'',
           example_cli ''3000'' ''102''])
   \<and> (1::nat) < nat 3
   \<and> iteration_outcome (engine_failing_after 1) ''build/risk_sim'' example_base 1000 [] 0
       = Inr \<lparr>point_paths = 1000, point_price = Fin 1, point_stderr = Fin 0\<rparr>
   \<and> iteration_outcome (engine_failing_after 1) ''build/risk_sim'' example_base 1000 [] 1
       = Inl (RuntimeError ''risk_sim failed (option): boom'')
   \<and> convergence_sweep (engine_failing_after 1) ''build/risk_sim'' example_base 1000 3 []
       = (Inl (RuntimeError ''risk_sim failed (option): boom''),
          [example_cli ''1000'' ''100'', example_cli ''2000'' ''101''])
   \<and> map (\<lambda>i. (map_of (sweep_payload example_base 1000 i) ''paths'',
                 map_of (sweep_payload example_base 1000 i) ''seed'')) [0, 1, 2]
       = [(Some (PyInt 1000), Some (PyInt 100)),
          (Some (PyInt 2000), Some (PyInt 101)),
          (Some (PyInt 3000), Some (PyInt 102))]"
proof -
  let ?b = "''build/risk_sim''"
  let ?p = "\<lambda>n. \<lparr>point_paths = n, point_price = Fin 1, point_stderr = Fin 0\<rparr>"
  let ?e = "RuntimeError ''risk_sim failed (option): boom''"
  have pos: "(0::int) < 3" by simp
  have n3: "nat 3 = 3" by simp
  have o0: "iteration_outcome engine_ok ?b example_base 1000 [] 0 = Inr (?p 1000)"
    and o1: "iteration_outcome engine_ok ?b example_base 1000 [] 1 = Inr (?p 2000)"
    and o2: "iteration_outcome engine_ok ?b example_base 1000 [] 2 = Inr (?p 3000)"
    by (simp_all add: engine_ok_outcome)
  have f0: "iteration_outcome (engine_failing_after 1) ?b example_base 1000 [] 0
              = Inr (?p 1000)"
    and f1: "iteration_outcome (engine_failing_after 1) ?b example_base 1000 [] 1 = Inl ?e"
    by (simp_all add: engine_failing_after_outcome)
  note all = sweep_requests [OF pos, of engine_ok ?b example_base 1000 "[]"]
  have ok: "\<forall>i < nat 3. \<exists>point.
              iteration_outcome engine_ok ?b example_base 1000 [] i = Inr point"
    by (simp add: engine_ok_outcome)
  from all [THEN conjunct1, THEN mp, OF ok] obtain points where
    run: "convergence_sweep engine_ok ?b example_base 1000 3 []
            = (Inr points, issued_before engine_ok ?b example_base 1000 [] (nat 3))"
    and len: "length points = nat 3"
    and each: "\<forall>i < nat 3.
                 iteration_outcome engine_ok ?b example_base 1000 [] i = Inr (points ! i)
               \<and> point_paths (points ! i) = 1000 * (int i + 1)"
    by (elim exE conjE)
  from each [rule_format, of 0] o0 have p0: "points ! 0 = ?p 1000" by simp
  from each [rule_format, of 1] o1 have p1: "points ! 1 = ?p 2000" by simp
  from each [rule_format, of 2] o2 have p2: "points ! 2 = ?p 3000" by simp
  from len have "points = [points ! 0, points ! 1, points ! 2]"
    by (intro three_points) simp
  then have pts: "points = [?p 1000, ?p 2000, ?p 3000]"
    by (simp only: p0 p1 p2)
  have complete: "convergence_sweep engine_ok ?b example_base 1000 3 []
       = (Inr [?p 1000, ?p 2000, ?p 3000],
          [example_cli ''1000'' ''100'', example_cli ''2000'' ''101'',
           example_cli ''3000'' ''102''])"
    using run by (simp only: pts n3 example_issued(2) [OF engine_ok_fields(4)])
  note stop = sweep_requests [OF pos, of "engine_failing_after 1" ?b example_base 1000 "[]",
      THEN conjunct2, THEN conjunct1, THEN spec, THEN spec, THEN mp]
  have before: "\<forall>i < 1. \<exists>point.
      iteration_outcome (engine_failing_after 1) ?b example_base 1000 [] i = Inr point"
    by (simp add: engine_failing_after_outcome)
  have j: "(1::nat) < nat 3" by simp
  from stop [OF conjI [OF j conjI [OF before f1]]]
  have stopped: "convergence_sweep (engine_failing_after 1) ?b example_base 1000 3 []
       = (Inl ?e, [example_cli ''1000'' ''100'', example_cli ''2000'' ''101''])"
    by (simp add: engine_failing_after_fields(1)
        issued_before_def upt_rec [of 0 1] upt_rec [of 1 1]
        example_clis [OF engine_failing_after_fields(4)])
  from all [THEN conjunct2, THEN conjunct2]
  have carried: "map (\<lambda>i. (map_of (sweep_payload example_base 1000 i) ''paths'',
                   map_of (sweep_payload example_base 1000 i) ''seed'')) [0, 1, 2]
       = [(Some (PyInt 1000), Some (PyInt 100)),
          (Some (PyInt 2000), Some (PyInt 101)),
          (Some (PyInt 3000), Some (PyInt 102))]"
    by simp
  from pos o0 o1 o2 complete j f0 f1 stopped carried show ?thesis
    by (intro conjI)
qed

text \<open>
  The same sweep run directly: the loop of the model on the always-succeeding engine.
\<close>

lemma sweep_example:
  "convergence_sweep engine_ok ''build/risk_sim'' example_base 1000 3 []
   = (Inr [\<lparr>point_paths = 1000, point_price = Fin 1, point_stderr = Fin 0\<rparr>,
           \<lparr>point_paths = 2000, point_price = Fin 1, point_stderr = Fin 0\<rparr>,
           \<lparr>point_paths = 3000, point_price = Fin 1, point_stderr = Fin 0\<rparr>],
      [example_cli ''1000'' ''100'', example_cli ''2000'' ''101'', example_cli ''3000'' ''102''])"
proof -
  have steps: "[0..<nat 3] = [0, 1, 2]" by (simp add: upt_rec)
  show ?thesis
    unfolding convergence_sweep_def steps
    by (simp add: sweep_iteration_def run_risk_sim_def read_point_def engine_ok_def
        build_cli_def example_cli_def sweep_payload_def example_base_def option_payload_def
        str_int_def str_nat_numeral str_nat_one)
qed

text \<open>
  C4 as stated fails: the seeds do not start from the seed of the base request. The
  request \<open>main\<close> builds carries seed 42, and the first request of the sweep carries
  seed 100, not 42.
\<close>

theorem sweep_seed_not_from_base:
  "map_of example_base ''seed'' = Some (PyInt 42)
   \<and> map_of (sweep_payload example_base 1000 0) ''seed'' = Some (PyInt 100)
   \<and> PyInt 100 \<noteq> PyInt (42 + int 0)"
  by (simp add: example_base_def option_payload_def sweep_payload_def)

end
